theory Spec2Isabelle
  imports Complex_Main
begin

text \<open>
  The computations of the stock dashboard, as functions of HOL: the reader of CSV files
  (\<open>parseCSVData\<close>), the performance metrics of a list of predictions, the technical
  indicators of a price sequence and the trading recommendation, each translated from
  its React component, followed by the properties proved of them.
\<close>

section \<open>JavaScript numbers\<close>

text \<open>
  A JavaScript number is modelled as a real number or one of the three special values
  of the language: \<open>Infinity\<close>, \<open>-Infinity\<close> and \<open>NaN\<close>. The special values follow
  the rules of the language (division by zero, \<open>Infinity - Infinity\<close>, comparisons with
  \<open>NaN\<close>). The square root is rounded to the nearest double, as \<open>Math.sqrt\<close> gives it. Sums,
  differences, products and quotients of finite values are exact: the rounding of these
  operations, their overflow and underflow and the sign of zero are outside the model.
  Where that rounding would change a property, the statement below is restricted: it
  carries a bound on the magnitudes, or a weak order in place of a strict one.
\<close>

datatype jsnum = Fin real | PInf | NInf | NaN

fun is_finite :: "jsnum \<Rightarrow> bool" where
  "is_finite (Fin a) = True"
| "is_finite _ = False"

fun js_isNaN :: "jsnum \<Rightarrow> bool" where
  "js_isNaN NaN = True"
| "js_isNaN _ = False"

fun js_neg :: "jsnum \<Rightarrow> jsnum" where
  "js_neg (Fin a) = Fin (- a)"
| "js_neg PInf = NInf"
| "js_neg NInf = PInf"
| "js_neg NaN = NaN"

fun js_add :: "jsnum \<Rightarrow> jsnum \<Rightarrow> jsnum" where
  "js_add NaN _ = NaN"
| "js_add _ NaN = NaN"
| "js_add PInf NInf = NaN"
| "js_add NInf PInf = NaN"
| "js_add PInf _ = PInf"
| "js_add _ PInf = PInf"
| "js_add NInf _ = NInf"
| "js_add _ NInf = NInf"
| "js_add (Fin a) (Fin b) = Fin (a + b)"

definition js_sub :: "jsnum \<Rightarrow> jsnum \<Rightarrow> jsnum" where
  "js_sub a b = js_add a (js_neg b)"

text \<open>The sign of a number that is not \<open>NaN\<close>; zero counts as positive.\<close>

fun js_nonneg :: "jsnum \<Rightarrow> bool" where
  "js_nonneg (Fin a) = (0 \<le> a)"
| "js_nonneg PInf = True"
| "js_nonneg _ = False"

definition js_signed_inf :: "bool \<Rightarrow> jsnum" where
  "js_signed_inf pos = (if pos then PInf else NInf)"

fun js_mul :: "jsnum \<Rightarrow> jsnum \<Rightarrow> jsnum" where
  "js_mul NaN _ = NaN"
| "js_mul _ NaN = NaN"
| "js_mul (Fin a) (Fin b) = Fin (a * b)"
| "js_mul (Fin a) y = (if a = 0 then NaN else js_signed_inf ((0 < a) = js_nonneg y))"
| "js_mul x (Fin b) = (if b = 0 then NaN else js_signed_inf (js_nonneg x = (0 < b)))"
| "js_mul x y = js_signed_inf (js_nonneg x = js_nonneg y)"

fun js_div :: "jsnum \<Rightarrow> jsnum \<Rightarrow> jsnum" where
  "js_div NaN _ = NaN"
| "js_div _ NaN = NaN"
| "js_div (Fin a) (Fin b) =
     (if b = 0 then (if a = 0 then NaN else js_signed_inf (0 < a)) else Fin (a / b))"
| "js_div (Fin a) _ = Fin 0"
| "js_div x (Fin b) = js_signed_inf (js_nonneg x = (0 \<le> b))"
| "js_div _ _ = NaN"

fun js_abs :: "jsnum \<Rightarrow> jsnum" where
  "js_abs (Fin a) = Fin \<bar>a\<bar>"
| "js_abs PInf = PInf"
| "js_abs NInf = PInf"
| "js_abs NaN = NaN"

text \<open>
  The double nearest to a real number, ties to the even significand: the doubles around
  \<open>x\<close> are the multiples of \<open>double_ulp x\<close>, a power of 2 that gives 53 significant bits,
  and not less than 2 to the power -1074, the least positive double; a result of
  magnitude 2 to the power 1024 or more is infinite.
\<close>

definition round_even :: "real \<Rightarrow> int" where
  "round_even q =
     (let n = \<lfloor>q\<rfloor>; f = q - of_int n
      in if f < 1 / 2 then n else if 1 / 2 < f then n + 1 else if even n then n else n + 1)"

definition double_ulp :: "real \<Rightarrow> real" where
  "double_ulp x = 2 powr of_int (max \<lfloor>log 2 \<bar>x\<bar>\<rfloor> (- 1022) - 52)"

definition to_double :: "real \<Rightarrow> jsnum" where
  "to_double x =
     (if x = 0 then Fin 0
      else
        let u = double_ulp x;
            r = of_int (round_even (x / u)) * u
        in if 2 ^ 1024 \<le> \<bar>r\<bar> then js_signed_inf (0 < x) else Fin r)"

text \<open>\<open>Math.sqrt\<close>: the double nearest to the square root.\<close>

fun js_sqrt :: "jsnum \<Rightarrow> jsnum" where
  "js_sqrt (Fin a) = (if a < 0 then NaN else to_double (sqrt a))"
| "js_sqrt PInf = PInf"
| "js_sqrt _ = NaN"

text \<open>\<open>Math.pow(x, 2)\<close>.\<close>

fun js_pow2 :: "jsnum \<Rightarrow> jsnum" where
  "js_pow2 (Fin a) = Fin (a ^ 2)"
| "js_pow2 NaN = NaN"
| "js_pow2 _ = PInf"

text \<open>The comparison operators: every comparison with \<open>NaN\<close> is false.\<close>

fun js_lt :: "jsnum \<Rightarrow> jsnum \<Rightarrow> bool" where
  "js_lt NaN _ = False"
| "js_lt _ NaN = False"
| "js_lt (Fin a) (Fin b) = (a < b)"
| "js_lt _ NInf = False"
| "js_lt PInf _ = False"
| "js_lt _ _ = True"

definition js_gt :: "jsnum \<Rightarrow> jsnum \<Rightarrow> bool" where
  "js_gt a b = js_lt b a"

fun js_eq :: "jsnum \<Rightarrow> jsnum \<Rightarrow> bool" where
  "js_eq NaN _ = False"
| "js_eq _ NaN = False"
| "js_eq a b = (a = b)"

definition js_le :: "jsnum \<Rightarrow> jsnum \<Rightarrow> bool" where
  "js_le a b = (js_lt a b \<or> js_eq a b)"

definition js_ge :: "jsnum \<Rightarrow> jsnum \<Rightarrow> bool" where
  "js_ge a b = js_le b a"

text \<open>\<open>Math.max\<close> and \<open>Math.min\<close> of two arguments: \<open>NaN\<close> if either is.\<close>

definition js_max :: "jsnum \<Rightarrow> jsnum \<Rightarrow> jsnum" where
  "js_max a b = (if js_isNaN a \<or> js_isNaN b then NaN else if js_lt a b then b else a)"

definition js_min :: "jsnum \<Rightarrow> jsnum \<Rightarrow> jsnum" where
  "js_min a b = (if js_isNaN a \<or> js_isNaN b then NaN else if js_lt b a then b else a)"

text \<open>\<open>xs.reduce((sum, x) => sum + x, 0)\<close> and the length of an array as a number.\<close>

definition js_sum :: "jsnum list \<Rightarrow> jsnum" where
  "js_sum xs = foldl js_add (Fin 0) xs"

definition js_length :: "'a list \<Rightarrow> jsnum" where
  "js_length xs = Fin (real (length xs))"

section \<open>Strings\<close>

text \<open>
  A string is a list of code units below 256, the Latin-1 range of the UTF-16 strings of
  the language; code units from 256 on are outside the model. White space is the white
  space of the language in that range: tab, line feed, vertical tab, form feed, carriage
  return, space and the no-break space \<open>U+00A0\<close>. \<open>toLowerCase\<close> maps the letters \<open>A\<close> to
  \<open>Z\<close> and the capital letters \<open>U+00C0\<close> to \<open>U+00DE\<close>, the sign \<open>U+00D7\<close> apart, to the code
  unit 32 further on.
\<close>

definition is_space :: "char \<Rightarrow> bool" where
  "is_space c =
     (c \<in> set [CHR '' '', CHR 0x09, CHR 0x0A, CHR 0x0B, CHR 0x0C, CHR 0x0D, CHR 0xA0])"

definition trim_start :: "string \<Rightarrow> string" where
  "trim_start s = dropWhile is_space s"

definition trim :: "string \<Rightarrow> string" where
  "trim s = rev (dropWhile is_space (rev (dropWhile is_space s)))"

definition upper_letters :: "char list" where
  "upper_letters =
     ''ABCDEFGHIJKLMNOPQRSTUVWXYZ'' @
       [CHR 0xC0, CHR 0xC1, CHR 0xC2, CHR 0xC3, CHR 0xC4, CHR 0xC5, CHR 0xC6, CHR 0xC7,
        CHR 0xC8, CHR 0xC9, CHR 0xCA, CHR 0xCB, CHR 0xCC, CHR 0xCD, CHR 0xCE, CHR 0xCF,
        CHR 0xD0, CHR 0xD1, CHR 0xD2, CHR 0xD3, CHR 0xD4, CHR 0xD5, CHR 0xD6, CHR 0xD8,
        CHR 0xD9, CHR 0xDA, CHR 0xDB, CHR 0xDC, CHR 0xDD, CHR 0xDE]"

definition lower_letters :: "char list" where
  "lower_letters =
     ''abcdefghijklmnopqrstuvwxyz'' @
       [CHR 0xE0, CHR 0xE1, CHR 0xE2, CHR 0xE3, CHR 0xE4, CHR 0xE5, CHR 0xE6, CHR 0xE7,
        CHR 0xE8, CHR 0xE9, CHR 0xEA, CHR 0xEB, CHR 0xEC, CHR 0xED, CHR 0xEE, CHR 0xEF,
        CHR 0xF0, CHR 0xF1, CHR 0xF2, CHR 0xF3, CHR 0xF4, CHR 0xF5, CHR 0xF6, CHR 0xF8,
        CHR 0xF9, CHR 0xFA, CHR 0xFB, CHR 0xFC, CHR 0xFD, CHR 0xFE]"

definition lower_char :: "char \<Rightarrow> char" where
  "lower_char c = (case map_of (zip upper_letters lower_letters) c of Some d \<Rightarrow> d | None \<Rightarrow> c)"

definition toLowerCase :: "string \<Rightarrow> string" where
  "toLowerCase s = map lower_char s"

text \<open>\<open>s.split(sep)\<close> for a separator of one character: never the empty array.\<close>

fun split_on :: "char \<Rightarrow> string \<Rightarrow> string list" where
  "split_on sep [] = [[]]"
| "split_on sep (c # cs) =
     (if c = sep then [] # split_on sep cs
      else (case split_on sep cs of
              f # fs \<Rightarrow> (c # f) # fs
            | [] \<Rightarrow> [[c]]))"

fun starts_with :: "string \<Rightarrow> string \<Rightarrow> bool" where
  "starts_with s [] = True"
| "starts_with [] (p # ps) = False"
| "starts_with (c # cs) (p # ps) = (c = p \<and> starts_with cs ps)"

text \<open>\<open>h.includes(sub)\<close>\<close>

fun js_includes :: "string \<Rightarrow> string \<Rightarrow> bool" where
  "js_includes [] sub = (sub = [])"
| "js_includes (c # cs) sub = (starts_with (c # cs) sub \<or> js_includes cs sub)"

text \<open>\<open>xs.findIndex(P)\<close>: \<open>None\<close> stands for the result \<open>-1\<close>.\<close>

fun findIndex :: "('a \<Rightarrow> bool) \<Rightarrow> 'a list \<Rightarrow> nat option" where
  "findIndex P [] = None"
| "findIndex P (x # xs) = (if P x then Some 0 else map_option Suc (findIndex P xs))"

text \<open>\<open>xs[i]\<close>: \<open>None\<close> stands for \<open>undefined\<close>, the result beyond the end.\<close>

definition js_nth :: "'a list \<Rightarrow> nat \<Rightarrow> 'a option" where
  "js_nth xs i = (if i < length xs then Some (xs ! i) else None)"

subsection \<open>parseFloat\<close>

text \<open>
  \<open>parseFloat\<close> skips leading white space and reads the longest prefix that is a decimal
  literal: a sign, then \<open>Infinity\<close> or digits with an optional fraction and an optional
  exponent. With no such prefix the result is \<open>NaN\<close>; so it is for \<open>undefined\<close>. The value
  of the literal is exact here; the program rounds it to a double, to \<open>Infinity\<close> beyond the
  largest double and to 0 below the least.
\<close>

definition is_digit :: "char \<Rightarrow> bool" where
  "is_digit c = (c \<in> set ''0123456789'')"

definition digit_val :: "char \<Rightarrow> nat" where
  "digit_val c =
     (case map_of (zip ''0123456789'' [0, 1, 2, 3, 4, 5, 6, 7, 8, 9]) c of
        Some d \<Rightarrow> d
      | None \<Rightarrow> 0)"

definition digits_val :: "string \<Rightarrow> nat" where
  "digits_val ds = foldl (\<lambda>n c. 10 * n + digit_val c) 0 ds"

definition pow10 :: "int \<Rightarrow> real" where
  "pow10 e = (if 0 \<le> e then 10 ^ nat e else 1 / 10 ^ nat (- e))"

text \<open>The exponent part at the head of the rest, 0 when there is none.\<close>

definition parse_exponent :: "string \<Rightarrow> int" where
  "parse_exponent rest =
     (case rest of
        [] \<Rightarrow> 0
      | c # r \<Rightarrow>
          if c = CHR ''e'' \<or> c = CHR ''E'' then
            (let neg = starts_with r ''-'';
                 r' = (if starts_with r ''-'' \<or> starts_with r ''+'' then tl r else r);
                 ds = takeWhile is_digit r'
             in if ds = [] then 0
                else if neg then - int (digits_val ds) else int (digits_val ds))
          else 0)"

definition parse_unsigned :: "string \<Rightarrow> jsnum" where
  "parse_unsigned s =
     (if starts_with s ''Infinity'' then PInf
      else
        let ip = takeWhile is_digit s;
            r1 = dropWhile is_digit s;
            dot = starts_with r1 ''.'';
            fp = (if dot then takeWhile is_digit (tl r1) else []);
            r2 = (if dot then dropWhile is_digit (tl r1) else r1)
        in if ip = [] \<and> fp = [] then NaN
           else Fin (real (digits_val (ip @ fp)) / 10 ^ length fp * pow10 (parse_exponent r2)))"

definition parseFloat_string :: "string \<Rightarrow> jsnum" where
  "parseFloat_string s =
     (let t = trim_start s
      in if starts_with t ''-'' then js_neg (parse_unsigned (tl t))
         else if starts_with t ''+'' then parse_unsigned (tl t)
         else parse_unsigned t)"

definition parseFloat :: "string option \<Rightarrow> jsnum" where
  "parseFloat v = (case v of None \<Rightarrow> NaN | Some s \<Rightarrow> parseFloat_string s)"

text \<open>\<open>x || 0\<close> on a number: \<open>NaN\<close> and zero are the false numbers.\<close>

definition js_or_zero :: "jsnum \<Rightarrow> jsnum" where
  "js_or_zero x = (if js_isNaN x \<or> x = Fin 0 then Fin 0 else x)"

section \<open>Data model (types/StockTypes.ts)\<close>

text \<open>
  The \<open>date\<close> of a record read from a file is the field of the row at the date column;
  a row with too few fields has none there (\<open>undefined\<close>), hence the option.
\<close>

record StockData =
  date :: "string option"
  open' :: jsnum
  high :: jsnum
  low :: jsnum
  close :: jsnum
  volume :: jsnum

record ModelPrediction =
  mp_date :: "string option"
  actual :: jsnum
  predicted :: jsnum
  confidence :: jsnum

section \<open>Reading a CSV file (components/DataUpload.tsx)\<close>

text \<open>
  \<open>Math.random()\<close> is a sequence \<open>rnd\<close> of numbers given from outside, with a counter of
  the draws made so far. The object pushed for a row with fields \<open>values\<close>; \<open>r\<close> is the
  draw, which the row takes only if there is no volume column.
\<close>

definition row_of ::
  "nat \<Rightarrow> nat option \<Rightarrow> nat option \<Rightarrow> nat option \<Rightarrow> nat \<Rightarrow> nat option \<Rightarrow> string list \<Rightarrow> real
     \<Rightarrow> StockData" where
  "row_of dateIdx openIdx highIdx lowIdx closeIdx volumeIdx values r =
     \<lparr> date = js_nth values dateIdx,
       open' = (case openIdx of
                  Some i \<Rightarrow> js_or_zero (parseFloat (js_nth values i))
                | None \<Rightarrow> parseFloat (js_nth values closeIdx)),
       high = (case highIdx of
                 Some i \<Rightarrow> js_or_zero (parseFloat (js_nth values i))
               | None \<Rightarrow> parseFloat (js_nth values closeIdx)),
       low = (case lowIdx of
                Some i \<Rightarrow> js_or_zero (parseFloat (js_nth values i))
              | None \<Rightarrow> parseFloat (js_nth values closeIdx)),
       close = parseFloat (js_nth values closeIdx),
       volume = (case volumeIdx of
                   Some i \<Rightarrow> js_or_zero (parseFloat (js_nth values i))
                 | None \<Rightarrow> Fin (of_int \<lfloor>r * 1000000\<rfloor>)) \<rparr>"

text \<open>The loop over the lines after the header; \<open>k\<close> counts the draws.\<close>

fun parse_lines :: "(nat \<Rightarrow> real) \<Rightarrow> nat \<Rightarrow> string list \<Rightarrow> string list \<Rightarrow> StockData list" where
  "parse_lines rnd k headers [] = []"
| "parse_lines rnd k headers (line # rest) =
     (let values = map trim (split_on CHR '','' line);
          dateIdx = findIndex (\<lambda>h. js_includes h ''date'' \<or> js_includes h ''time'') headers;
          openIdx = findIndex (\<lambda>h. js_includes h ''open'') headers;
          highIdx = findIndex (\<lambda>h. js_includes h ''high'') headers;
          lowIdx = findIndex (\<lambda>h. js_includes h ''low'') headers;
          closeIdx = findIndex (\<lambda>h. js_includes h ''close'' \<or> js_includes h ''price'') headers;
          volumeIdx = findIndex (\<lambda>h. js_includes h ''volume'') headers
      in case (dateIdx, closeIdx) of
           (Some di, Some ci) \<Rightarrow>
             row_of di openIdx highIdx lowIdx ci volumeIdx values (rnd k)
               # parse_lines rnd (if volumeIdx = None then k + 1 else k) headers rest
         | _ \<Rightarrow> parse_lines rnd k headers rest)"

definition parseCSVData :: "(nat \<Rightarrow> real) \<Rightarrow> string \<Rightarrow> StockData list" where
  "parseCSVData rnd csvText =
     (case split_on CHR 0x0A (trim csvText) of
        [] \<Rightarrow> []
      | first # rest \<Rightarrow>
          let headers = map trim (split_on CHR '','' (toLowerCase first))
          in filter (\<lambda>d. \<not> js_isNaN (close d)) (parse_lines rnd 0 headers rest))"

text \<open>
  The header of a text, its lines after the header, the fields of a line, and the
  columns found in a header.
\<close>

definition csv_headers :: "string \<Rightarrow> string list" where
  "csv_headers csvText =
     map trim (split_on CHR '','' (toLowerCase (hd (split_on CHR 0x0A (trim csvText)))))"

definition csv_rows :: "string \<Rightarrow> string list" where
  "csv_rows csvText = tl (split_on CHR 0x0A (trim csvText))"

definition line_fields :: "string \<Rightarrow> string list" where
  "line_fields line = map trim (split_on CHR '','' line)"

definition date_column :: "string list \<Rightarrow> nat option" where
  "date_column headers = findIndex (\<lambda>h. js_includes h ''date'' \<or> js_includes h ''time'') headers"

definition close_column :: "string list \<Rightarrow> nat option" where
  "close_column headers = findIndex (\<lambda>h. js_includes h ''close'' \<or> js_includes h ''price'') headers"

definition column :: "string \<Rightarrow> string list \<Rightarrow> nat option" where
  "column name headers = findIndex (\<lambda>h. js_includes h name) headers"

text \<open>
  How an optional field of a row is set, in the words of the amended claim: the default
  when the column is absent, 0 when the field of the row is no number, and the number
  otherwise.
\<close>

definition defaulted :: "nat option \<Rightarrow> string list \<Rightarrow> jsnum \<Rightarrow> jsnum" where
  "defaulted col values dflt =
     (case col of
        None \<Rightarrow> dflt
      | Some i \<Rightarrow> (let v = parseFloat (js_nth values i) in if js_isNaN v then Fin 0 else v))"

definition row_defaults :: "string list \<Rightarrow> string \<Rightarrow> real \<Rightarrow> StockData \<Rightarrow> bool" where
  "row_defaults headers line r d =
     ((case close_column headers of
         None \<Rightarrow> False
       | Some ci \<Rightarrow> close d = parseFloat (js_nth (line_fields line) ci))
      \<and> open' d = defaulted (column ''open'' headers) (line_fields line) (close d)
      \<and> high d = defaulted (column ''high'' headers) (line_fields line) (close d)
      \<and> low d = defaulted (column ''low'' headers) (line_fields line) (close d)
      \<and> volume d = defaulted (column ''volume'' headers) (line_fields line)
                      (Fin (of_int \<lfloor>r * 1000000\<rfloor>)))"

text \<open>
  The number that the close field of a row parses to; \<open>NaN\<close> when the header has no close
  column.
\<close>

definition close_field :: "string list \<Rightarrow> string \<Rightarrow> jsnum" where
  "close_field headers line =
     (case close_column headers of
        None \<Rightarrow> NaN
      | Some ci \<Rightarrow> parseFloat (js_nth (line_fields line) ci))"

text \<open>Texts of files used below; \<open>CHR 0x0A\<close> is the line feed.\<close>

definition lines_text :: "string list \<Rightarrow> string" where
  "lines_text ls = concat (map (\<lambda>l. l @ [CHR 0x0A]) ls)"

definition example_csv :: string where
  "example_csv = lines_text
     [''Date,Open,High,Low,Close,Volume'',
      ''2024-01-01,150,155,149,152.5,1000000'',
      ''2024-01-02,152.5,156,151,154.25,1200000'']"

definition infinity_csv :: string where
  "infinity_csv = lines_text [''date,close'', ''2024-01-01,Infinity'']"

definition unparsable_open_csv :: string where
  "unparsable_open_csv = lines_text [''date,open,close'', ''2024-01-01,abc,10'']"

definition mixed_csv :: string where
  "mixed_csv = lines_text [''date,close'', ''a,1'', ''b,x'', ''c,2.5e1'']"

section \<open>Performance metrics (components/PerformanceMetrics.tsx)\<close>

record Metrics =
  mse :: jsnum
  rmse :: jsnum
  mae :: jsnum
  mape :: jsnum
  r2Score :: jsnum
  accuracy :: jsnum
  directionalAccuracy :: jsnum
  totalPredictions :: jsnum

text \<open>
  The callback of \<open>predictions.slice(1).filter((p, i) => ...)\<close>: \<open>p\<close> is the element at
  position \<open>i + 1\<close> of \<open>predictions\<close> and is compared with \<open>predictions[i]\<close>.
\<close>

definition directionally_correct :: "ModelPrediction list \<Rightarrow> nat \<times> ModelPrediction \<Rightarrow> bool" where
  "directionally_correct predictions ip =
     (let i = fst ip; p = snd ip;
          actualDirection = js_gt (actual p) (actual (predictions ! i));
          predictedDirection = js_gt (predicted p) (predicted (predictions ! i))
      in actualDirection = predictedDirection)"

definition metrics :: "ModelPrediction list \<Rightarrow> Metrics option" where
  "metrics predictions =
     (if length predictions = 0 then None
      else
        let errors = map (\<lambda>p. js_sub (actual p) (predicted p)) predictions;
            absoluteErrors = map js_abs errors;
            squaredErrors = map (\<lambda>e. js_mul e e) errors;
            percentageErrors =
              map (\<lambda>p. js_mul (js_abs (js_div (js_sub (actual p) (predicted p)) (actual p)))
                          (Fin 100)) predictions;
            mse = js_div (js_sum squaredErrors) (js_length predictions);
            rmse = js_sqrt mse;
            mae = js_div (js_sum absoluteErrors) (js_length predictions);
            mape = js_div (js_sum percentageErrors) (js_length predictions);
            actualMean = js_div (js_sum (map actual predictions)) (js_length predictions);
            totalSumSquares =
              js_sum (map (\<lambda>p. js_pow2 (js_sub (actual p) actualMean)) predictions);
            residualSumSquares = js_sum squaredErrors;
            r2Score = js_sub (Fin 1) (js_div residualSumSquares totalSumSquares);
            accuratePredictons =
              filter (\<lambda>p. js_le (js_div (js_abs (js_sub (actual p) (predicted p))) (actual p))
                             (Fin 0.05)) predictions;
            accuracy =
              js_mul (js_div (js_length accuratePredictons) (js_length predictions)) (Fin 100);
            directionallyCorrect =
              filter (directionally_correct predictions) (enumerate 0 (drop 1 predictions));
            directionalAccuracy =
              js_mul (js_div (js_length directionallyCorrect)
                             (js_sub (js_length predictions) (Fin 1))) (Fin 100)
        in Some \<lparr> mse = mse, rmse = rmse, mae = mae, mape = mape, r2Score = r2Score,
                   accuracy = accuracy, directionalAccuracy = directionalAccuracy,
                   totalPredictions = js_length predictions \<rparr>)"

text \<open>The total sum of squares about the mean of the actual values, as \<open>metrics\<close> computes it.\<close>

definition totalSumSquares_of :: "ModelPrediction list \<Rightarrow> jsnum" where
  "totalSumSquares_of predictions =
     (let actualMean = js_div (js_sum (map actual predictions)) (js_length predictions)
      in js_sum (map (\<lambda>p. js_pow2 (js_sub (actual p) actualMean)) predictions))"

text \<open>
  A number that is 0 or has a magnitude between 2 to the power -400 and 2 to the power
  400: the squares of differences of such numbers neither underflow nor overflow.
\<close>

definition moderate :: "jsnum \<Rightarrow> bool" where
  "moderate x =
     (case x of
        Fin a \<Rightarrow> a = 0 \<or> (1 / 2 ^ 400 \<le> \<bar>a\<bar> \<and> \<bar>a\<bar> \<le> 2 ^ 400)
      | _ \<Rightarrow> False)"

section \<open>Technical indicators (components/TechnicalIndicators.tsx)\<close>

text \<open>
  \<open>xs.slice(a, b)\<close> for \<open>0 \<le> a\<close>, and \<open>xs.slice(-k)\<close>, the last \<open>k\<close> elements (all of
  \<open>xs\<close> when it has fewer).
\<close>

definition slice :: "nat \<Rightarrow> nat \<Rightarrow> 'a list \<Rightarrow> 'a list" where
  "slice a b xs = take (b - a) (drop a xs)"

definition slice_last :: "nat \<Rightarrow> 'a list \<Rightarrow> 'a list" where
  "slice_last k xs = drop (length xs - k) xs"

record Indicator =
  ind_date :: "string option"
  ind_close :: jsnum
  sma20 :: jsnum
  sma50 :: jsnum
  rsi :: jsnum
  macd :: jsnum
  bb_upper :: jsnum
  bb_middle :: jsnum
  bb_lower :: jsnum

text \<open>
  The body of the callback of \<open>stockData.map((data, index) => ...)\<close>, one definition for
  each local constant; \<open>data\<close> is \<open>stockData[index]\<close>.
\<close>

definition sma20_at :: "StockData list \<Rightarrow> nat \<Rightarrow> jsnum" where
  "sma20_at stockData index =
     (if 19 \<le> index
      then js_div (js_sum (map close (slice (index - 19) (index + 1) stockData))) (Fin 20)
      else close (stockData ! index))"

definition sma50_at :: "StockData list \<Rightarrow> nat \<Rightarrow> jsnum" where
  "sma50_at stockData index =
     (if 49 \<le> index
      then js_div (js_sum (map close (slice (index - 49) (index + 1) stockData))) (Fin 50)
      else close (stockData ! index))"

text \<open>\<open>arr.map((d, i, arr) => i === 0 ? 0 : d.close - arr[i - 1].close)\<close>\<close>

definition changes_of :: "StockData list \<Rightarrow> jsnum list" where
  "changes_of arr =
     map (\<lambda>i. if i = 0 then Fin 0 else js_sub (close (arr ! i)) (close (arr ! (i - 1))))
       [0..<length arr]"

definition rsi_at :: "StockData list \<Rightarrow> nat \<Rightarrow> jsnum" where
  "rsi_at stockData index =
     (if 14 \<le> index
      then
        let changes = changes_of (slice (index - 13) (index + 1) stockData);
            gains = js_div (js_sum (filter (\<lambda>c. js_gt c (Fin 0)) changes)) (Fin 14);
            losses = js_div (js_abs (js_sum (filter (\<lambda>c. js_lt c (Fin 0)) changes))) (Fin 14)
        in if js_eq losses (Fin 0) then Fin 100
           else js_sub (Fin 100) (js_div (Fin 100) (js_add (Fin 1) (js_div gains losses)))
      else Fin 50)"

definition ema12_at :: "StockData list \<Rightarrow> nat \<Rightarrow> jsnum" where
  "ema12_at stockData index =
     (if 11 \<le> index
      then js_div (js_sum (map close (slice (index - 11) (index + 1) stockData))) (Fin 12)
      else close (stockData ! index))"

definition ema26_at :: "StockData list \<Rightarrow> nat \<Rightarrow> jsnum" where
  "ema26_at stockData index =
     (if 25 \<le> index
      then js_div (js_sum (map close (slice (index - 25) (index + 1) stockData))) (Fin 26)
      else close (stockData ! index))"

definition variance_at :: "StockData list \<Rightarrow> nat \<Rightarrow> jsnum" where
  "variance_at stockData index =
     (if 19 \<le> index
      then js_div (js_sum (map (\<lambda>d. js_pow2 (js_sub (close d) (sma20_at stockData index)))
                            (slice (index - 19) (index + 1) stockData))) (Fin 20)
      else Fin 0)"

definition indicator_at :: "StockData list \<Rightarrow> nat \<Rightarrow> Indicator" where
  "indicator_at stockData index =
     (let data = stockData ! index;
          bb_middle = sma20_at stockData index;
          stdDev = js_sqrt (variance_at stockData index)
      in \<lparr> ind_date = date data, ind_close = close data,
           sma20 = sma20_at stockData index, sma50 = sma50_at stockData index,
           rsi = rsi_at stockData index,
           macd = js_sub (ema12_at stockData index) (ema26_at stockData index),
           bb_upper = js_add bb_middle (js_mul stdDev (Fin 2)),
           bb_middle = bb_middle,
           bb_lower = js_sub bb_middle (js_mul stdDev (Fin 2)) \<rparr>)"

definition indicators :: "StockData list \<Rightarrow> Indicator list" where
  "indicators stockData =
     (if length stockData < 50 then []
      else map (indicator_at stockData) [0..<length stockData])"

text \<open>
  A loss in the 14-sample window that ends at \<open>index\<close>: a close below the close of the
  day before, both days in the window.
\<close>

definition window_has_loss :: "StockData list \<Rightarrow> nat \<Rightarrow> bool" where
  "window_has_loss stockData index =
     (\<exists>j\<in>{index - 13..<index}. js_lt (close (stockData ! (j + 1))) (close (stockData ! j)))"

text \<open>The closes of that window are finite and at most 10 to the power 300 in magnitude.\<close>

definition window_bounded :: "StockData list \<Rightarrow> nat \<Rightarrow> bool" where
  "window_bounded stockData index =
     (\<forall>j\<in>{index - 13..index}.
        case close (stockData ! j) of Fin c \<Rightarrow> \<bar>c\<bar> \<le> 10 ^ 300 | _ \<Rightarrow> False)"

text \<open>Concrete price sequences used below.\<close>

definition day :: "real \<Rightarrow> StockData" where
  "day c = \<lparr> date = Some ''2024-01-01'', open' = Fin c, high = Fin c, low = Fin c,
             close = Fin c, volume = Fin 1000 \<rparr>"

definition flat_days :: "StockData list" where
  "flat_days = replicate 50 (day 100)"

definition rising_days :: "StockData list" where
  "rising_days = map (\<lambda>i. day (real i)) [0..<50]"

definition day_of :: "jsnum \<Rightarrow> StockData" where
  "day_of c = \<lparr> date = Some ''2024-01-01'', open' = c, high = c, low = c, close = c,
                volume = Fin 1000 \<rparr>"

definition loss_then_infinite :: "StockData list" where
  "loss_then_infinite = [day 1, day 1, day 0] @ replicate 47 (day_of PInf)"

definition infinite_spike :: "StockData list" where
  "infinite_spike = [day 1, day 1, day_of PInf] @ replicate 47 (day 1)"

section \<open>Recommendation (components/Recommendations.tsx)\<close>

datatype Action = BUY | SELL | HOLD

text \<open>The loop that counts the rises among the recent predictions.\<close>

definition trendUp_of :: "ModelPrediction list \<Rightarrow> nat" where
  "trendUp_of recentPredictions =
     length (filter (\<lambda>i. js_gt (predicted (recentPredictions ! i))
                              (predicted (recentPredictions ! (i - 1))))
               [1..<length recentPredictions])"

text \<open>The chain of conditions that sets \<open>action\<close> and \<open>confidence\<close>.\<close>

definition decide :: "jsnum \<Rightarrow> jsnum \<Rightarrow> jsnum \<Rightarrow> bool \<Rightarrow> jsnum \<Rightarrow> Action \<times> jsnum" where
  "decide priceChangePercent trendStrength latestConfidence priceMovingUp avgConfidence =
     (if js_gt priceChangePercent (Fin 1.5) \<and> js_ge trendStrength (Fin 0.5)
           \<and> js_gt latestConfidence (Fin 0.7)
      then (BUY, js_min (Fin 0.95) (js_add (js_mul avgConfidence (Fin 0.9)) (Fin 0.1)))
      else if js_lt priceChangePercent (Fin (- 1.5)) \<and> js_le trendStrength (Fin 0.5)
           \<and> js_gt latestConfidence (Fin 0.7)
      then (SELL, js_min (Fin 0.9) (js_add (js_mul avgConfidence (Fin 0.85)) (Fin 0.1)))
      else if js_gt priceChangePercent (Fin 0.8) \<and> priceMovingUp
           \<and> js_gt avgConfidence (Fin 0.75)
      then (BUY, js_mul avgConfidence (Fin 0.8))
      else if js_lt priceChangePercent (Fin (- 0.8)) \<and> \<not> priceMovingUp
           \<and> js_gt avgConfidence (Fin 0.75)
      then (SELL, js_mul avgConfidence (Fin 0.8))
      else if js_gt priceChangePercent (Fin 0.3) \<and> js_gt trendStrength (Fin 0.6)
      then (BUY, js_max (Fin 0.5) (js_mul avgConfidence (Fin 0.7)))
      else if js_lt priceChangePercent (Fin (- 0.3)) \<and> js_lt trendStrength (Fin 0.4)
      then (SELL, js_max (Fin 0.5) (js_mul avgConfidence (Fin 0.7)))
      else (HOLD, js_mul avgConfidence (Fin 0.6)))"

definition targetMultiplier_of :: "jsnum \<Rightarrow> jsnum" where
  "targetMultiplier_of priceChangePercent =
     js_max (Fin 1.03) (js_add (Fin 1) (js_mul (js_abs priceChangePercent) (Fin 0.015)))"

definition stopMultiplier_of :: "jsnum \<Rightarrow> jsnum" where
  "stopMultiplier_of priceChangePercent =
     js_max (Fin 0.97) (js_sub (Fin 1) (js_mul (js_abs priceChangePercent) (Fin 0.01)))"

text \<open>
  The result of the computation; the \<open>reason\<close> text, a sentence formatted from the
  numbers below, is left out.
\<close>

record Recommendation =
  action :: Action
  rec_confidence :: jsnum
  targetPrice :: jsnum
  stopLoss :: jsnum
  currentPrice :: jsnum
  predictedPrice :: jsnum
  priceChange :: jsnum
  priceChangePercent :: jsnum
  volatility :: jsnum
  trendStrength :: jsnum

definition recommendation :: "StockData list \<Rightarrow> ModelPrediction list \<Rightarrow> Recommendation option" where
  "recommendation stockData predictions =
     (if length stockData = 0 \<or> length predictions = 0 then None
      else
        let currentPrice = close (last stockData);
            latestPrediction = last predictions;
            priceChange = js_sub (predicted latestPrediction) currentPrice;
            priceChangePercent = js_mul (js_div priceChange currentPrice) (Fin 100);
            recentPredictions = slice_last 3 predictions;
            trendUp = trendUp_of recentPredictions;
            trendStrength =
              (if 1 < length recentPredictions
               then js_div (Fin (real trendUp)) (js_sub (js_length recentPredictions) (Fin 1))
               else Fin 0.5);
            recentPrices = map close (slice_last 20 stockData);
            avgPrice = js_div (js_sum recentPrices) (js_length recentPrices);
            variance = js_div (js_sum (map (\<lambda>p. js_pow2 (js_sub p avgPrice)) recentPrices))
                              (js_length recentPrices);
            volatility = js_div (js_sqrt variance) avgPrice;
            recentActualPrices = map close (slice_last 5 stockData);
            priceMovingUp = js_gt (last recentActualPrices) (hd recentActualPrices);
            avgConfidence = js_div (js_sum (map confidence (slice_last 3 predictions)))
                                   (Fin (real (min 3 (length predictions))));
            decision = decide priceChangePercent trendStrength (confidence latestPrediction)
                         priceMovingUp avgConfidence;
            action = fst decision;
            targetMultiplier = targetMultiplier_of priceChangePercent;
            stopMultiplier = stopMultiplier_of priceChangePercent;
            targetPrice =
              (case action of
                 BUY \<Rightarrow> js_mul currentPrice targetMultiplier
               | SELL \<Rightarrow> js_mul currentPrice (js_sub (Fin 2) targetMultiplier)
               | HOLD \<Rightarrow> currentPrice);
            stopLoss =
              (case action of
                 BUY \<Rightarrow> js_mul currentPrice stopMultiplier
               | SELL \<Rightarrow> js_mul currentPrice (js_sub (Fin 2) stopMultiplier)
               | HOLD \<Rightarrow> currentPrice)
        in Some \<lparr> action = action, rec_confidence = snd decision,
                   targetPrice = targetPrice, stopLoss = stopLoss,
                   currentPrice = currentPrice, predictedPrice = predicted latestPrediction,
                   priceChange = priceChange, priceChangePercent = priceChangePercent,
                   volatility = volatility, trendStrength = trendStrength \<rparr>)"

text \<open>The order of the price targets that goes with an action.\<close>

definition targets_ordered :: "Recommendation \<Rightarrow> bool" where
  "targets_ordered r =
     (case action r of
        BUY \<Rightarrow> js_lt (stopLoss r) (currentPrice r) \<and> js_lt (currentPrice r) (targetPrice r)
      | SELL \<Rightarrow> js_lt (targetPrice r) (currentPrice r) \<and> js_lt (currentPrice r) (stopLoss r)
      | HOLD \<Rightarrow> targetPrice r = currentPrice r \<and> stopLoss r = currentPrice r)"

text \<open>The same order with equality allowed.\<close>

definition targets_weakly_ordered :: "Recommendation \<Rightarrow> bool" where
  "targets_weakly_ordered r =
     (case action r of
        BUY \<Rightarrow> js_le (stopLoss r) (currentPrice r) \<and> js_le (currentPrice r) (targetPrice r)
      | SELL \<Rightarrow> js_le (targetPrice r) (currentPrice r) \<and> js_le (currentPrice r) (stopLoss r)
      | HOLD \<Rightarrow> js_eq (targetPrice r) (currentPrice r) \<and> js_eq (stopLoss r) (currentPrice r))"

text \<open>
  The directional accuracy as the specification words it: the share of consecutive
  pairs on which the change of \<open>actual\<close> and the change of \<open>predicted\<close> have the same
  sign, where a sign is positive, zero or negative.
\<close>

definition change_sign :: "jsnum \<Rightarrow> jsnum \<Rightarrow> int" where
  "change_sign prev next =
     (if js_gt next prev then 1 else if js_lt next prev then - 1 else 0)"

definition sign_matches :: "ModelPrediction list \<Rightarrow> nat \<Rightarrow> bool" where
  "sign_matches ps i =
     (change_sign (actual (ps ! i)) (actual (ps ! (i + 1))) =
      change_sign (predicted (ps ! i)) (predicted (ps ! (i + 1))))"

definition spec_directionalAccuracy :: "ModelPrediction list \<Rightarrow> jsnum" where
  "spec_directionalAccuracy ps =
     Fin (real (length (filter (sign_matches ps) [0..<length ps - 1])) / real (length ps - 1) * 100)"

text \<open>
  What the code counts instead: the pairs on which ``\<open>actual\<close> rose'' and
  ``\<open>predicted\<close> rose'' agree, a fall and no change being the same direction.
\<close>

definition direction_matches :: "ModelPrediction list \<Rightarrow> nat \<Rightarrow> bool" where
  "direction_matches ps i =
     (js_gt (actual (ps ! (i + 1))) (actual (ps ! i)) =
      js_gt (predicted (ps ! (i + 1))) (predicted (ps ! i)))"

definition direction_match_fraction :: "ModelPrediction list \<Rightarrow> real" where
  "direction_match_fraction ps =
     real (length (filter (direction_matches ps) [0..<length ps - 1])) / real (length ps - 1)"

text \<open>Concrete prediction lists used below.\<close>

definition prediction :: "real \<Rightarrow> real \<Rightarrow> ModelPrediction" where
  "prediction a p = \<lparr> mp_date = None, actual = Fin a, predicted = Fin p, confidence = Fin 0.9 \<rparr>"

definition single_perfect :: "ModelPrediction list" where
  "single_perfect = [prediction 5 5]"

definition flat_then_falling :: "ModelPrediction list" where
  "flat_then_falling = [prediction 1 2, prediction 1 1]"

definition three_predictions :: "ModelPrediction list" where
  "three_predictions = [prediction 1 1, prediction 2 3, prediction 3 2]"

definition single_point :: "ModelPrediction list" where
  "single_point = [prediction 3 4]"

definition off_by_two :: "ModelPrediction list" where
  "off_by_two = [prediction 3 1, prediction 5 5]"

definition under_by_two :: "ModelPrediction list" where
  "under_by_two = [prediction 1 3, prediction 2 2]"

definition far_apart :: "ModelPrediction list" where
  "far_apart = [prediction 0 0, prediction 4 4, prediction 8 8]"

definition zigzag_days :: "StockData list" where
  "zigzag_days = map (\<lambda>i. day (if even i then 100 else 101)) [0..<50]"

definition zero_price_days :: "StockData list" where
  "zero_price_days = [day 0]"

definition rise_predicted :: "ModelPrediction list" where
  "rise_predicted = [prediction 0 10]"

definition hundred_days :: "StockData list" where
  "hundred_days = [day 100]"

definition gain_predicted :: "ModelPrediction list" where
  "gain_predicted = [prediction 100 110]"

text \<open>The real number a finite JavaScript number stands for (used in proofs only).\<close>

fun num_val :: "jsnum \<Rightarrow> real" where
  "num_val (Fin a) = a"
| "num_val _ = 0"

section \<open>Properties of the rounding to doubles\<close>

lemma to_double_zero [simp]: "to_double 0 = Fin 0"
  by (simp add: to_double_def)

lemma js_sqrt_zero [simp]: "js_sqrt (Fin 0) = Fin 0"
  by simp

lemma round_even_error: "\<bar>of_int (round_even q) - q\<bar> \<le> 1 / 2"
  unfolding round_even_def Let_def by (auto simp add: abs_if) linarith+

lemma round_even_nonneg: "0 \<le> q \<Longrightarrow> 0 \<le> round_even q"
  unfolding round_even_def Let_def by auto

lemma double_ulp_pos: "0 < double_ulp x"
  unfolding double_ulp_def by simp

lemma to_double_nonneg: "0 \<le> x \<Longrightarrow> js_nonneg (to_double x)"
proof -
  assume x: "0 \<le> x"
  have "0 \<le> x / double_ulp x"
    using x double_ulp_pos [of x] by simp
  then have "0 \<le> round_even (x / double_ulp x)"
    by (rule round_even_nonneg)
  then have "0 \<le> of_int (round_even (x / double_ulp x)) * double_ulp x"
    using double_ulp_pos [of x] by simp
  then show ?thesis
    using x unfolding to_double_def Let_def by (simp add: js_signed_inf_def)
qed

lemma log2_inverse_power: "log 2 (1 / 2 ^ k) = - real k"
  by (simp add: log_divide log_nat_power)

lemma double_ulp_normal:
  assumes "1 / 2 ^ 1022 \<le> x"
  shows "double_ulp x \<le> x / 2 ^ 52"
proof -
  have x: "0 < x"
    using assms by (smt (verit) divide_pos_pos zero_less_power)
  have "0 < (1 / 2 ^ 1022 :: real)"
    by simp
  then have "log 2 (1 / 2 ^ 1022) \<le> log 2 x"
    using assms by (subst log_le_cancel_iff) simp_all
  moreover have "log 2 (1 / 2 ^ 1022) = - real (1022 :: nat)"
    by (rule log2_inverse_power)
  ultimately have "- 1022 \<le> log 2 x"
    by simp
  then have "(- 1022 :: int) \<le> \<lfloor>log 2 x\<rfloor>"
    by (simp add: le_floor_iff)
  then have e: "max \<lfloor>log 2 \<bar>x\<bar>\<rfloor> (- 1022) = \<lfloor>log 2 x\<rfloor>"
    using x by simp
  have "2 powr of_int \<lfloor>log 2 x\<rfloor> \<le> 2 powr log 2 x"
    by (simp add: powr_mono)
  also have "\<dots> = x"
    using x by simp
  finally have p: "2 powr of_int \<lfloor>log 2 x\<rfloor> \<le> x" .
  have "double_ulp x = 2 powr (of_int \<lfloor>log 2 x\<rfloor> - 52)"
    unfolding double_ulp_def e by simp
  also have "\<dots> = 2 powr of_int \<lfloor>log 2 x\<rfloor> / 2 powr 52"
    by (simp add: powr_diff)
  also have "\<dots> = 2 powr of_int \<lfloor>log 2 x\<rfloor> / 2 ^ 52"
    by (simp add: powr_realpow [symmetric])
  also have "\<dots> \<le> x / 2 ^ 52"
    using p by (simp add: divide_right_mono)
  finally show ?thesis .
qed

lemma to_double_error:
  assumes "1 / 2 ^ 1022 \<le> x" and "x \<le> 2 ^ 1000"
  shows "\<exists>r. to_double x = Fin r \<and> \<bar>r - x\<bar> \<le> x / 2 ^ 53"
proof -
  define u where "u = double_ulp x"
  define r where "r = of_int (round_even (x / u)) * u"
  have x: "0 < x"
    using assms(1) by (smt (verit) divide_pos_pos zero_less_power)
  have u: "0 < u" "u \<le> x / 2 ^ 52"
    unfolding u_def using double_ulp_pos double_ulp_normal [OF assms(1)] by simp_all
  have "r - x = (of_int (round_even (x / u)) - x / u) * u"
    unfolding r_def using u(1) by (simp add: left_diff_distrib)
  then have "\<bar>r - x\<bar> = \<bar>of_int (round_even (x / u)) - x / u\<bar> * u"
    using u(1) by (simp add: abs_mult)
  also have "\<dots> \<le> 1 / 2 * u"
    using round_even_error [of "x / u"] u(1) by (simp add: mult_right_mono)
  also have "\<dots> \<le> 1 / 2 * (x / 2 ^ 52)"
    using u(2) by simp
  also have "\<dots> = x / 2 ^ 53"
    by simp
  finally have err: "\<bar>r - x\<bar> \<le> x / 2 ^ 53" .
  define d where "d = x / 2 ^ 53"
  have d: "0 \<le> d" "d \<le> x"
    unfolding d_def using x by (simp_all add: field_simps)
  have "\<bar>r - x\<bar> \<le> d"
    unfolding d_def by (rule err)
  then have "\<bar>r\<bar> \<le> x + d"
    using x by linarith
  also have "\<dots> \<le> 2 * x"
    using d(2) by simp
  also have "\<dots> \<le> 2 * 2 ^ 1000"
    using assms(2) by simp
  also have "\<dots> < (2 ^ 1024 :: real)"
    by simp
  finally have "\<not> 2 ^ 1024 \<le> \<bar>r\<bar>"
    by simp
  then have "to_double x = Fin r"
    using x unfolding to_double_def Let_def r_def u_def by simp
  with err show ?thesis
    by blast
qed

lemma sqrt_lower_power: "1 / 2 ^ (2 * k) \<le> a \<Longrightarrow> 1 / 2 ^ k \<le> sqrt a"
  by (rule real_le_rsqrt) (simp add: power_divide power_mult [symmetric] mult.commute)

lemma sqrt_upper_power: "0 \<le> a \<Longrightarrow> a \<le> 2 ^ (2 * k) \<Longrightarrow> sqrt a \<le> 2 ^ k"
  by (rule real_le_lsqrt) (simp_all add: power_mult [symmetric] mult.commute)

lemma sqrt_square_error:
  assumes lo: "1 / 2 ^ 1000 \<le> a" and hi: "a \<le> 2 ^ 1000"
  shows "\<exists>r. to_double (sqrt a) = Fin r \<and> \<bar>r * r - a\<bar> \<le> a / 2 ^ 50"
proof -
  define s where "s = sqrt a"
  have a: "0 < a"
    using lo by (smt (verit) divide_pos_pos zero_less_power)
  have s: "0 < s" "s * s = a"
    unfolding s_def using a by simp_all
  have "1 / 2 ^ 500 \<le> s"
    unfolding s_def using lo sqrt_lower_power [of 500 a] by simp
  moreover have "(1 / 2 ^ 1022 :: real) \<le> 1 / 2 ^ 500"
    by simp
  ultimately have n: "1 / 2 ^ 1022 \<le> s"
    by linarith
  have "s \<le> 2 ^ 500"
    unfolding s_def using a hi sqrt_upper_power [of a 500] by simp
  moreover have "(2 ^ 500 :: real) \<le> 2 ^ 1000"
    by simp
  ultimately have m: "s \<le> 2 ^ 1000"
    by linarith
  from to_double_error [OF n m] obtain r where r: "to_double s = Fin r"
    and e: "\<bar>r - s\<bar> \<le> s / 2 ^ 53"
    by blast
  define d where "d = s / 2 ^ 53"
  have d: "0 \<le> d" "d \<le> s" "\<bar>r - s\<bar> \<le> d"
    unfolding d_def using s(1) e by (simp_all add: field_simps)
  have "\<bar>r + s\<bar> \<le> 3 * s"
    using d s(1) by linarith
  then have "\<bar>r - s\<bar> * \<bar>r + s\<bar> \<le> d * (3 * s)"
    using d by (intro mult_mono) simp_all
  moreover have "r * r - a = (r - s) * (r + s)"
    unfolding s(2) [symmetric] by (simp add: algebra_simps)
  ultimately have "\<bar>r * r - a\<bar> \<le> d * (3 * s)"
    by (simp add: abs_mult)
  also have "\<dots> = 3 * a / 2 ^ 53"
    unfolding d_def s(2) [symmetric] by simp
  also have "\<dots> \<le> a / 2 ^ 50"
    using a by (simp add: field_simps)
  finally show ?thesis
    using r unfolding s_def by blast
qed

lemma sqrt2_less_2: "sqrt 2 < 2"
  by (rule real_less_lsqrt) simp_all

lemma floor_log2_sqrt2: "\<lfloor>log 2 (sqrt 2)\<rfloor> = 0"
proof (rule floor_unique)
  show "of_int 0 \<le> log 2 (sqrt 2)"
    by simp
  have "log 2 (sqrt 2) < log 2 2"
    using sqrt2_less_2 by (subst log_less_cancel_iff) simp_all
  then show "log 2 (sqrt 2) < of_int 0 + 1"
    by simp
qed

lemma double_ulp_sqrt2: "double_ulp (sqrt 2) = 1 / 4503599627370496"
proof -
  have a: "\<bar>sqrt 2\<bar> = sqrt 2"
    by simp
  have e: "max (0::int) (- 1022) - 52 = - 52"
    by simp
  have "double_ulp (sqrt 2) = 2 powr (- 52)"
    unfolding double_ulp_def a floor_log2_sqrt2 e by simp
  also have "\<dots> = 1 / 2 ^ 52"
    by (subst powr_minus_divide, subst powr_numeral) simp_all
  also have "\<dots> = 1 / 4503599627370496"
    by simp
  finally show ?thesis .
qed

lemma round_even_sqrt2: "round_even (sqrt 2 * 4503599627370496) = 6369051672525773"
proof -
  have lo: "6369051672525772 / 4503599627370496 \<le> sqrt 2"
    by (rule real_le_rsqrt) (simp add: power_divide)
  have mid: "12738103345051545 / 9007199254740992 < sqrt 2"
    by (rule real_less_rsqrt) (simp add: power_divide)
  have hi: "sqrt 2 < 6369051672525773 / 4503599627370496"
    by (rule real_less_lsqrt) (simp_all add: power_divide)
  have f: "\<lfloor>sqrt 2 * 4503599627370496\<rfloor> = 6369051672525772"
    by (rule floor_unique) (use lo hi in \<open>simp_all add: field_simps\<close>)
  have g: "1 / 2 < sqrt 2 * 4503599627370496 - of_int 6369051672525772"
    using mid by (simp add: field_simps)
  show ?thesis
    unfolding round_even_def Let_def f using g by simp
qed

lemma to_double_sqrt2: "to_double (sqrt 2) = Fin (6369051672525773 / 4503599627370496)"
proof -
  have "sqrt 2 / double_ulp (sqrt 2) = sqrt 2 * 4503599627370496"
    unfolding double_ulp_sqrt2 by simp
  then have "of_int (round_even (sqrt 2 / double_ulp (sqrt 2))) * double_ulp (sqrt 2)
      = 6369051672525773 / 4503599627370496"
    unfolding double_ulp_sqrt2 by (simp add: round_even_sqrt2)
  then show ?thesis
    unfolding to_double_def Let_def by simp
qed

section \<open>Properties of JavaScript sums and arrays\<close>

lemma is_finite_num_val: "is_finite x \<Longrightarrow> x = Fin (num_val x)"
  by (cases x) simp_all

lemma js_sum_Fin: "foldl js_add (Fin s) (map Fin xs) = Fin (s + sum_list xs)"
  by (induction xs arbitrary: s) (simp_all add: add.assoc)

lemma js_sum_map_Fin: "js_sum (map Fin xs) = Fin (sum_list xs)"
  by (simp add: js_sum_def js_sum_Fin)

lemma js_sum_fin:
  assumes "\<And>x. x \<in> set xs \<Longrightarrow> f x = Fin (g x)"
  shows "js_sum (map f xs) = Fin (sum_list (map g xs))"
proof -
  have "map f xs = map Fin (map g xs)"
    using assms by simp
  then show ?thesis
    by (simp only: js_sum_map_Fin)
qed

lemma sum_list_member_le:
  fixes f :: "'a \<Rightarrow> real"
  shows "(\<And>x. x \<in> set xs \<Longrightarrow> 0 \<le> f x) \<Longrightarrow> y \<in> set xs \<Longrightarrow> f y \<le> sum_list (map f xs)"
proof (induction xs)
  case Nil
  then show ?case by simp
next
  case (Cons a xs)
  have nn: "0 \<le> sum_list (map f xs)"
    by (rule sum_list_nonneg) (use Cons.prems(1) in auto)
  show ?case
  proof (cases "y = a")
    case True
    with nn show ?thesis by simp
  next
    case False
    with Cons.prems have "y \<in> set xs" by simp
    with Cons have "f y \<le> sum_list (map f xs)" by simp
    moreover have "0 \<le> f a" using Cons.prems(1) by simp
    ultimately show ?thesis by simp
  qed
qed

lemma enumerate_as_map: "enumerate 0 xs = map (\<lambda>i. (i, xs ! i)) [0..<length xs]"
  by (rule nth_equalityI) (simp_all add: nth_enumerate_eq)

lemma filter_enumerate_length:
  "length (filter Q (enumerate 0 xs)) = length (filter (\<lambda>i. Q (i, xs ! i)) [0..<length xs])"
  by (simp add: enumerate_as_map filter_map comp_def)

section \<open>Performance metrics: results\<close>

lemma metrics_directionalAccuracy:
  "predictions \<noteq> [] \<Longrightarrow>
   map_option directionalAccuracy (metrics predictions) =
     Some (js_mul (js_div (js_length (filter (directionally_correct predictions)
                                        (enumerate 0 (drop 1 predictions))))
                          (js_sub (js_length predictions) (Fin 1))) (Fin 100))"
  by (simp add: metrics_def Let_def)

lemma metrics_mse:
  "predictions \<noteq> [] \<Longrightarrow>
   map_option mse (metrics predictions) =
     Some (js_div (js_sum (map (\<lambda>p. js_mul (js_sub (actual p) (predicted p))
                                         (js_sub (actual p) (predicted p))) predictions))
                  (js_length predictions))"
  by (simp add: metrics_def Let_def comp_def)

lemma metrics_rmse:
  "map_option rmse (metrics predictions) = map_option (\<lambda>m. js_sqrt (mse m)) (metrics predictions)"
  by (simp add: metrics_def Let_def)

lemma metrics_r2Score_total:
  "predictions \<noteq> [] \<Longrightarrow>
   map_option r2Score (metrics predictions) =
     Some (js_sub (Fin 1)
       (js_div (js_sum (map (\<lambda>p. js_mul (js_sub (actual p) (predicted p))
                                      (js_sub (actual p) (predicted p))) predictions))
               (totalSumSquares_of predictions)))"
  by (simp add: metrics_def totalSumSquares_of_def Let_def comp_def)

lemma squared_error_nonneg:
  assumes "is_finite a" and "is_finite b"
  shows "\<exists>e. js_mul (js_sub a b) (js_sub a b) = Fin e \<and> 0 \<le> e"
  using assms by (cases a; cases b) (simp_all add: js_sub_def)

lemma js_sum_nonneg_fin:
  assumes "\<And>x. x \<in> set xs \<Longrightarrow> \<exists>e. f x = Fin e \<and> 0 \<le> e"
  shows "\<exists>s. js_sum (map f xs) = Fin s \<and> 0 \<le> s"
proof -
  have "\<exists>s. foldl js_add (Fin a) (map f xs) = Fin s \<and> 0 \<le> s" if "0 \<le> a" for a
    using assms that
  proof (induction xs arbitrary: a)
    case Nil
    then show ?case by simp
  next
    case (Cons x xs)
    from Cons.prems(1) [of x] obtain e where e: "f x = Fin e" "0 \<le> e"
      by auto
    have "\<exists>s. foldl js_add (Fin (a + e)) (map f xs) = Fin s \<and> 0 \<le> s"
      by (rule Cons.IH) (use Cons.prems e in auto)
    then show ?case
      by (simp add: e)
  qed
  then show ?thesis
    unfolding js_sum_def by simp
qed

text \<open>
  Claim C2, as stated: for every non-empty prediction list the square of the RMSE equals
  the MSE. For the errors 2 and 0 the MSE is 2 and the RMSE is the double nearest to the
  square root of 2, whose square is not 2 (nor is the rounded product of the program,
  2.0000000000000004).
\<close>

theorem rmse_squared_counterexample:
  "map_option mse (metrics off_by_two) = Some (Fin 2)
   \<and> map_option rmse (metrics off_by_two) = Some (Fin (6369051672525773 / 4503599627370496))
   \<and> map_option (\<lambda>m. js_eq (js_mul (rmse m) (rmse m)) (mse m)) (metrics off_by_two) = Some False"
proof -
  have ne: "off_by_two \<noteq> []"
    by (simp add: off_by_two_def)
  have a: "map_option mse (metrics off_by_two) = Some (Fin 2)"
    unfolding metrics_mse [OF ne]
    by (simp add: off_by_two_def prediction_def js_sum_def js_length_def js_sub_def)
  then obtain m where m: "metrics off_by_two = Some m" and v: "mse m = Fin 2"
    by auto
  have "rmse m = js_sqrt (mse m)"
    using metrics_rmse [of off_by_two] m by simp
  then have r: "rmse m = Fin (6369051672525773 / 4503599627370496)"
    unfolding v by (simp add: to_double_sqrt2)
  show ?thesis
    unfolding m using v r by simp
qed

text \<open>
  Claim C2, amended: for every non-empty prediction list the MSE is the mean of the
  squared errors, actual minus predicted, and the RMSE is \<open>Math.sqrt\<close> of the MSE; when all
  actual and predicted values are finite, the MSE and the RMSE are no \<open>NaN\<close> and not
  negative; and when the MSE lies between 2 to the power -1000 and 2 to the power 1000,
  the square of the RMSE differs from the MSE by at most the MSE divided by 2 to the
  power 50: the two are equal up to rounding, not exactly.
\<close>

theorem rmse_sqrt_mse:
  assumes ne: "predictions \<noteq> []"
  shows "\<exists>m. metrics predictions = Some m
           \<and> mse m = js_div (js_sum (map (\<lambda>p. js_mul (js_sub (actual p) (predicted p))
                                                  (js_sub (actual p) (predicted p))) predictions))
                             (js_length predictions)
           \<and> rmse m = js_sqrt (mse m)
           \<and> ((\<forall>p\<in>set predictions. is_finite (actual p) \<and> is_finite (predicted p))
                \<longrightarrow> js_nonneg (mse m) \<and> js_nonneg (rmse m))
           \<and> (\<forall>a. mse m = Fin a \<and> 1 / 2 ^ 1000 \<le> a \<and> a \<le> 2 ^ 1000
                \<longrightarrow> (\<exists>r. rmse m = Fin r \<and> \<bar>r * r - a\<bar> \<le> a / 2 ^ 50))"
proof -
  from ne obtain m where m: "metrics predictions = Some m"
    by (auto simp add: metrics_def Let_def)
  have a: "mse m = js_div (js_sum (map (\<lambda>p. js_mul (js_sub (actual p) (predicted p))
                                                  (js_sub (actual p) (predicted p))) predictions))
                             (js_length predictions)"
    using metrics_mse [OF ne] m by simp
  have b: "rmse m = js_sqrt (mse m)"
    using metrics_rmse [of predictions] m by simp
  have c: "js_nonneg (mse m) \<and> js_nonneg (rmse m)"
    if fin: "\<forall>p\<in>set predictions. is_finite (actual p) \<and> is_finite (predicted p)"
  proof -
    have "\<exists>s. js_sum (map (\<lambda>p. js_mul (js_sub (actual p) (predicted p))
                                   (js_sub (actual p) (predicted p))) predictions) = Fin s \<and> 0 \<le> s"
      by (rule js_sum_nonneg_fin) (use fin squared_error_nonneg in auto)
    then obtain s where s: "js_sum (map (\<lambda>p. js_mul (js_sub (actual p) (predicted p))
                                   (js_sub (actual p) (predicted p))) predictions) = Fin s" "0 \<le> s"
      by blast
    have v: "mse m = Fin (s / real (length predictions))"
      unfolding a s(1) js_length_def using ne by simp
    have n: "0 \<le> s / real (length predictions)"
      using s(2) by simp
    then have "js_nonneg (to_double (sqrt (s / real (length predictions))))"
      by (intro to_double_nonneg) simp
    then show ?thesis
      unfolding b v using n by simp
  qed
  have d: "\<exists>r. rmse m = Fin r \<and> \<bar>r * r - x\<bar> \<le> x / 2 ^ 50"
    if "mse m = Fin x \<and> 1 / 2 ^ 1000 \<le> x \<and> x \<le> 2 ^ 1000" for x
  proof -
    from that have v: "mse m = Fin x" and lo: "1 / 2 ^ 1000 \<le> x" and hi: "x \<le> 2 ^ 1000"
      by simp_all
    have "0 < x"
      using lo by (smt (verit) divide_pos_pos zero_less_power)
    then have "rmse m = to_double (sqrt x)"
      unfolding b v by simp
    with sqrt_square_error [OF lo hi] show ?thesis
      by simp
  qed
  from m a b c d show ?thesis
    by blast
qed

theorem rmse_sqrt_mse_witness:
  "map_option mse (metrics under_by_two) = Some (Fin 2)
   \<and> map_option (\<lambda>m. js_nonneg (mse m) \<and> js_nonneg (rmse m)) (metrics under_by_two) = Some True
   \<and> (\<exists>r. map_option rmse (metrics under_by_two) = Some (Fin r) \<and> \<bar>r * r - 2\<bar> \<le> 2 / 2 ^ 50)"
proof -
  have ne: "under_by_two \<noteq> []"
    by (simp add: under_by_two_def)
  have fin: "\<forall>p\<in>set under_by_two. is_finite (actual p) \<and> is_finite (predicted p)"
    by (simp add: under_by_two_def prediction_def)
  from rmse_sqrt_mse [OF ne] obtain m where m: "metrics under_by_two = Some m"
    and a: "mse m = js_div (js_sum (map (\<lambda>p. js_mul (js_sub (actual p) (predicted p))
                                                  (js_sub (actual p) (predicted p))) under_by_two))
                             (js_length under_by_two)"
    and c: "(\<forall>p\<in>set under_by_two. is_finite (actual p) \<and> is_finite (predicted p))
              \<longrightarrow> js_nonneg (mse m) \<and> js_nonneg (rmse m)"
    and d: "\<forall>a. mse m = Fin a \<and> 1 / 2 ^ 1000 \<le> a \<and> a \<le> 2 ^ 1000
              \<longrightarrow> (\<exists>r. rmse m = Fin r \<and> \<bar>r * r - a\<bar> \<le> a / 2 ^ 50)"
    by blast
  have v: "mse m = Fin 2"
    unfolding a by (simp add: under_by_two_def prediction_def js_sum_def js_length_def js_sub_def)
  have "(1 / 2 ^ 1000 :: real) \<le> 2" and "(2 :: real) \<le> 2 ^ 1000"
    by simp_all
  with d v obtain r where r: "rmse m = Fin r" "\<bar>r * r - 2\<bar> \<le> 2 / 2 ^ 50"
    by blast
  from c fin have "js_nonneg (mse m) \<and> js_nonneg (rmse m)"
    by blast
  then show ?thesis
    unfolding m using v r by auto
qed

text \<open>
  Claim C3, as stated: for every non-empty prediction list whose predicted value equals
  the actual value at every point, the R-squared score is 1. It fails on a list with a
  single point: the total sum of squares is 0, the quotient is \<open>0 / 0\<close>, and the score is
  \<open>NaN\<close>.
\<close>

theorem r2Score_single_point_counterexample:
  "single_perfect \<noteq> [] \<and> predicted (hd single_perfect) = actual (hd single_perfect)
   \<and> map_option r2Score (metrics single_perfect) = Some NaN"
  by (simp add: single_perfect_def prediction_def metrics_def js_sum_def js_length_def
      js_sub_def Let_def)

lemma moderate_finite: "moderate x \<Longrightarrow> is_finite x"
  by (cases x) (simp_all add: moderate_def)

text \<open>
  Claim C3, amended: for every non-empty prediction list whose predicted value equals
  the actual value at every point, and whose actual values are each 0 or of a magnitude
  between 2 to the power -400 and 2 to the power 400, the R-squared score is 1 when the
  actual values are not all equal, and \<open>NaN\<close> when the list has a single point.
\<close>

theorem r2Score_perfect:
  assumes ne: "predictions \<noteq> []"
    and fin: "\<forall>p\<in>set predictions. moderate (actual p) \<and> predicted p = actual p"
  shows "(length predictions = 1 \<longrightarrow> map_option r2Score (metrics predictions) = Some NaN)
       \<and> ((\<exists>p\<in>set predictions. \<exists>q\<in>set predictions. actual p \<noteq> actual q)
            \<longrightarrow> map_option r2Score (metrics predictions) = Some (Fin 1))"
proof -
  define a :: "ModelPrediction \<Rightarrow> real" where "a = (\<lambda>p. num_val (actual p))"
  define m where "m = sum_list (map a predictions) / real (length predictions)"
  define t where "t = sum_list (map (\<lambda>p. (a p - m) ^ 2) predictions)"
  have act: "actual p = Fin (a p)" if "p \<in> set predictions" for p
  proof -
    from that fin have "is_finite (actual p)"
      by (auto intro: moderate_finite)
    then show ?thesis
      unfolding a_def by (rule is_finite_num_val)
  qed
  have sq: "js_mul (js_sub (actual p) (predicted p)) (js_sub (actual p) (predicted p)) = Fin 0"
    if "p \<in> set predictions" for p
    using that fin act [OF that] by (simp add: js_sub_def)
  have res: "js_sum (map (\<lambda>p. js_mul (js_sub (actual p) (predicted p))
                                  (js_sub (actual p) (predicted p))) predictions) = Fin 0"
    using js_sum_fin [of predictions
        "\<lambda>p. js_mul (js_sub (actual p) (predicted p)) (js_sub (actual p) (predicted p))" "\<lambda>p. 0"] sq
    by simp
  have mean: "js_div (js_sum (map actual predictions)) (js_length predictions) = Fin m"
    using js_sum_fin [of predictions actual a] act ne by (simp add: js_length_def m_def)
  have dev: "js_pow2 (js_sub (actual p) (Fin m)) = Fin ((a p - m) ^ 2)"
    if "p \<in> set predictions" for p
    using act [OF that] by (simp add: js_sub_def)
  have tot: "totalSumSquares_of predictions = Fin t"
    unfolding totalSumSquares_of_def Let_def mean t_def
    using js_sum_fin [of predictions "\<lambda>p. js_pow2 (js_sub (actual p) (Fin m))" "\<lambda>p. (a p - m) ^ 2"] dev
    by simp
  have val: "map_option r2Score (metrics predictions) = Some (if t = 0 then NaN else Fin 1)"
    unfolding metrics_r2Score_total [OF ne] res tot by (simp add: js_sub_def)
  have single: "t = 0" if "length predictions = 1"
  proof -
    from that obtain p where "predictions = [p]"
      by (cases predictions) auto
    then show ?thesis
      unfolding t_def m_def by simp
  qed
  have several: "t \<noteq> 0"
    if var: "\<exists>p\<in>set predictions. \<exists>q\<in>set predictions. actual p \<noteq> actual q"
  proof -
    from var obtain p q where pq: "p \<in> set predictions" "q \<in> set predictions"
      "actual p \<noteq> actual q"
      by blast
    then have "a p \<noteq> a q"
      using act by auto
    then have "a p \<noteq> m \<or> a q \<noteq> m"
      by auto
    then obtain r where r: "r \<in> set predictions" "a r \<noteq> m"
      using pq by blast
    have "0 < (a r - m) ^ 2"
      using r(2) by simp
    also have "(a r - m) ^ 2 \<le> t"
      unfolding t_def
      by (rule sum_list_member_le [of predictions "\<lambda>p. (a p - m) ^ 2" r]) (simp_all add: r(1))
    finally show ?thesis
      by simp
  qed
  show ?thesis
    unfolding val using single several by simp
qed

theorem r2Score_perfect_witness:
  "map_option r2Score (metrics far_apart) = Some (Fin 1)
   \<and> map_option r2Score (metrics [prediction 4 4]) = Some NaN"
proof -
  have h1: "far_apart \<noteq> []" "[prediction 4 4] \<noteq> []"
    by (simp_all add: far_apart_def)
  have h2: "\<forall>p\<in>set far_apart. moderate (actual p) \<and> predicted p = actual p"
    by (simp add: far_apart_def prediction_def moderate_def)
  have h3: "\<exists>p\<in>set far_apart. \<exists>q\<in>set far_apart. actual p \<noteq> actual q"
    unfolding far_apart_def prediction_def by auto
  have h4: "\<forall>p\<in>set [prediction 4 4]. moderate (actual p) \<and> predicted p = actual p"
    by (simp add: prediction_def moderate_def)
  show ?thesis
    using r2Score_perfect [OF h1(1) h2] h3 r2Score_perfect [OF h1(2) h4] by simp
qed

text \<open>
  Claim C4, as stated: the directional accuracy is the share of consecutive pairs on
  which the signs (positive, zero or negative) of the two changes match, times 100. The
  code compares only whether each value rose: on a pair where \<open>actual\<close> stays and
  \<open>predicted\<close> falls the signs differ, and the code counts the pair as correct.
\<close>

theorem directionalAccuracy_sign_counterexample:
  "map_option directionalAccuracy (metrics flat_then_falling) = Some (Fin 100)
   \<and> spec_directionalAccuracy flat_then_falling = Fin 0"
proof
  have ne: "flat_then_falling \<noteq> []"
    by (simp add: flat_then_falling_def)
  show "map_option directionalAccuracy (metrics flat_then_falling) = Some (Fin 100)"
    unfolding metrics_directionalAccuracy [OF ne]
    by (simp add: flat_then_falling_def prediction_def js_length_def js_sub_def js_gt_def
        directionally_correct_def)
  show "spec_directionalAccuracy flat_then_falling = Fin 0"
    by (simp add: flat_then_falling_def prediction_def js_gt_def
        spec_directionalAccuracy_def sign_matches_def change_sign_def)
qed

text \<open>
  Claim C4, amended: for every prediction list of length at least 2, the directional
  accuracy is 100 times the share of consecutive index pairs \<open>(i, i + 1)\<close> on which
  ``\<open>actual\<close> rose'' and ``\<open>predicted\<close> rose'' are both true or both false.
\<close>

theorem directionalAccuracy_fraction:
  assumes "2 \<le> length predictions"
  shows "map_option directionalAccuracy (metrics predictions) =
           Some (Fin (direction_match_fraction predictions * 100))"
proof -
  have ne: "predictions \<noteq> []"
    using assms by auto
  have same: "directionally_correct predictions (i, drop 1 predictions ! i)
      = direction_matches predictions i" if "i < length predictions - 1" for i
    using that by (simp add: directionally_correct_def direction_matches_def Let_def)
  have cnt: "length (filter (directionally_correct predictions) (enumerate 0 (drop 1 predictions)))
      = length (filter (direction_matches predictions) [0..<length predictions - 1])"
    unfolding filter_enumerate_length
  proof (rule arg_cong [where f = length], rule filter_cong)
    show "[0..<length (drop 1 predictions)] = [0..<length predictions - 1]"
      by simp
  next
    fix i
    assume "i \<in> set [0..<length predictions - 1]"
    then have "i < length predictions - 1"
      by simp
    then show "directionally_correct predictions (i, drop 1 predictions ! i)
        = direction_matches predictions i"
      by (rule same)
  qed
  have den: "js_sub (js_length predictions) (Fin 1) = Fin (real (length predictions - 1))"
    using assms by (simp add: js_length_def js_sub_def of_nat_diff)
  have nz: "real (length predictions - 1) \<noteq> 0"
    using assms by simp
  have "js_div (js_length (filter (direction_matches predictions) [0..<length predictions - 1]))
            (Fin (real (length predictions - 1)))
      = Fin (direction_match_fraction predictions)"
    unfolding js_length_def direction_match_fraction_def js_div.simps
    using nz by (simp only: if_False)
  moreover have "js_length (filter (directionally_correct predictions)
                       (enumerate 0 (drop 1 predictions)))
      = js_length (filter (direction_matches predictions) [0..<length predictions - 1])"
    unfolding js_length_def by (simp only: cnt)
  ultimately show ?thesis
    unfolding metrics_directionalAccuracy [OF ne] den
    by (simp only: js_mul.simps)
qed

theorem directionalAccuracy_fraction_witness:
  "2 \<le> length three_predictions
   \<and> map_option directionalAccuracy (metrics three_predictions) = Some (Fin 50)"
proof -
  have h: "2 \<le> length three_predictions"
    by (simp add: three_predictions_def)
  have f: "direction_match_fraction three_predictions = 1 / 2"
    by (simp add: direction_match_fraction_def three_predictions_def prediction_def
        direction_matches_def js_gt_def upt_conv_Cons)
  have "map_option directionalAccuracy (metrics three_predictions)
      = Some (Fin (direction_match_fraction three_predictions * 100))"
    by (rule directionalAccuracy_fraction [OF h])
  then have "map_option directionalAccuracy (metrics three_predictions) = Some (Fin 50)"
    unfolding f by simp
  then show ?thesis
    by (intro conjI h)
qed

text \<open>
  Claim C5, as stated: for a prediction list of length 1 the directional accuracy is
  none or 0, and no number obtained by dividing by zero. The code returns a metrics
  object, and its directional accuracy is the value of \<open>(0 / 0) * 100\<close>, not 0.
\<close>

theorem directionalAccuracy_single_counterexample:
  "metrics single_point \<noteq> None
   \<and> map_option directionalAccuracy (metrics single_point)
       = Some (js_mul (js_div (Fin 0) (Fin 0)) (Fin 100))
   \<and> map_option directionalAccuracy (metrics single_point) \<noteq> Some (Fin 0)"
  by (simp add: single_point_def prediction_def metrics_def js_sum_def js_length_def js_sub_def
      Let_def)

text \<open>
  Claim C5, amended: for every prediction list of length 1 the computation returns a
  metrics object, and its directional accuracy is \<open>NaN\<close>, the value of the unguarded
  \<open>(0 / 0) * 100\<close>.
\<close>

theorem directionalAccuracy_single:
  "metrics [p] \<noteq> None \<and> map_option directionalAccuracy (metrics [p]) = Some NaN"
  by (simp add: metrics_def js_sum_def js_length_def js_sub_def Let_def)

section \<open>Technical indicators: results\<close>

lemma indicators_nth:
  "50 \<le> length sd \<Longrightarrow> index < length sd \<Longrightarrow> indicators sd ! index = indicator_at sd index"
  by (simp add: indicators_def)

text \<open>
  Claim C10: the indicator computation returns the empty list when the stock data has
  fewer than 50 points, and otherwise one record for each data point, in the same order,
  with the date (and the close) of that point.
\<close>

theorem indicators_length_dates:
  "(length stockData < 50 \<longrightarrow> indicators stockData = [])
   \<and> (50 \<le> length stockData \<longrightarrow>
        length (indicators stockData) = length stockData
        \<and> map ind_date (indicators stockData) = map date stockData
        \<and> map ind_close (indicators stockData) = map close stockData)"
proof -
  have d: "map ind_date (map (indicator_at stockData) [0..<length stockData]) = map date stockData"
    by (rule nth_equalityI) (simp_all add: indicator_at_def Let_def)
  have c: "map ind_close (map (indicator_at stockData) [0..<length stockData]) = map close stockData"
    by (rule nth_equalityI) (simp_all add: indicator_at_def Let_def)
  show ?thesis
    using d c by (simp add: indicators_def)
qed

theorem indicators_length_dates_witness:
  "indicators [] = [] \<and> length (indicators flat_days) = 50
   \<and> map ind_date (indicators flat_days) = replicate 50 (Some ''2024-01-01'')"
proof -
  have l: "length flat_days = 50"
    by (simp add: flat_days_def)
  have "map date flat_days = replicate 50 (Some ''2024-01-01'')"
    by (simp add: flat_days_def day_def)
  then show ?thesis
    using indicators_length_dates [of "[]"] indicators_length_dates [of flat_days] l
    by simp
qed

lemma js_add_zero: "js_add x (Fin 0) = x"
  by (cases x) simp_all

text \<open>
  Claim C8, as stated: at an index where the window of an indicator is not yet full, the
  value of the indicator is the close of that day. That fails for the RSI: before index
  14 it is the constant 50, whatever the close.
\<close>

theorem rsi_placeholder_counterexample:
  "rsi (indicators flat_days ! 0) = Fin 50 \<and> ind_close (indicators flat_days ! 0) = Fin 100"
proof -
  have "indicators flat_days ! 0 = indicator_at flat_days 0"
    by (rule indicators_nth) (simp_all add: flat_days_def)
  then show ?thesis
    by (simp add: indicator_at_def rsi_at_def Let_def flat_days_def day_def)
qed

text \<open>
  Claim C8, amended: at an index below 19 the 20-day average and the three Bollinger
  bands are the close of that day; below 49 so is the 50-day average; below 11 and below
  25 so are the 12-day and the 26-day means of the MACD; below 14 the RSI is 50.
\<close>

theorem placeholders:
  assumes "50 \<le> length stockData" and "index < length stockData"
  shows "(index < 19 \<longrightarrow>
            sma20 (indicators stockData ! index) = close (stockData ! index)
            \<and> bb_middle (indicators stockData ! index) = close (stockData ! index)
            \<and> bb_upper (indicators stockData ! index) = close (stockData ! index)
            \<and> bb_lower (indicators stockData ! index) = close (stockData ! index))
       \<and> (index < 49 \<longrightarrow> sma50 (indicators stockData ! index) = close (stockData ! index))
       \<and> (index < 11 \<longrightarrow> ema12_at stockData index = close (stockData ! index))
       \<and> (index < 25 \<longrightarrow> ema26_at stockData index = close (stockData ! index))
       \<and> (index < 14 \<longrightarrow> rsi (indicators stockData ! index) = Fin 50)"
proof -
  have n: "indicators stockData ! index = indicator_at stockData index"
    using assms by (rule indicators_nth)
  show ?thesis
    unfolding n
    by (simp add: indicator_at_def Let_def sma20_at_def sma50_at_def ema12_at_def ema26_at_def
        rsi_at_def variance_at_def js_add_zero js_sub_def)
qed

theorem placeholders_witness:
  "sma20 (indicators flat_days ! 5) = Fin 100 \<and> bb_upper (indicators flat_days ! 5) = Fin 100
   \<and> bb_lower (indicators flat_days ! 5) = Fin 100 \<and> sma50 (indicators flat_days ! 5) = Fin 100
   \<and> ema12_at flat_days 5 = Fin 100 \<and> ema26_at flat_days 5 = Fin 100
   \<and> rsi (indicators flat_days ! 5) = Fin 50"
proof -
  have l: "50 \<le> length flat_days" "5 < length flat_days"
    by (simp_all add: flat_days_def)
  have c: "close (flat_days ! 5) = Fin 100"
    by (simp add: flat_days_def day_def)
  show ?thesis
    using placeholders [OF l] unfolding c by simp
qed


lemma filter_gt_Fin: "filter (\<lambda>c. js_gt c (Fin 0)) (map Fin cs) = map Fin (filter (\<lambda>c. 0 < c) cs)"
  by (induction cs) (simp_all add: js_gt_def)

lemma filter_lt_Fin: "filter (\<lambda>c. js_lt c (Fin 0)) (map Fin cs) = map Fin (filter (\<lambda>c. c < 0) cs)"
  by (induction cs) simp_all

lemma sum_pos_nonneg: "0 \<le> sum_list (filter (\<lambda>c. 0 < c) (cs :: real list))"
  by (induction cs) simp_all

text \<open>The RSI formula on finite gains and losses.\<close>

lemma rsi_formula:
  assumes "0 \<le> g" and "0 \<le> l"
  shows "(if js_eq (Fin l) (Fin 0) then Fin 100
          else js_sub (Fin 100) (js_div (Fin 100) (js_add (Fin 1) (js_div (Fin g) (Fin l)))))
         = Fin (if l = 0 then 100 else 100 - 100 / (1 + g / l))"
proof (cases "l = 0")
  case True
  then show ?thesis by simp
next
  case False
  with assms have "0 \<le> g / l" by simp
  then have "1 + g / l \<noteq> 0" by linarith
  with False show ?thesis
    by (simp add: js_sub_def)
qed

lemma rsi_value_bounds:
  assumes "0 \<le> g" and "0 < l"
  shows "0 \<le> 100 - 100 / (1 + g / l)" and "100 - 100 / (1 + g / l) < (100::real)"
proof -
  have q: "0 \<le> g / l" using assms by simp
  then have d: "1 \<le> 1 + g / l" by simp
  then have "100 / (1 + g / l) \<le> 100 / 1"
    by (intro divide_left_mono) simp_all
  then show "0 \<le> 100 - 100 / (1 + g / l)" by simp
  have "0 < 100 / (1 + g / l)" using d by simp
  then show "100 - 100 / (1 + g / l) < (100::real)" by simp
qed

lemma slice_window:
  assumes "k \<le> index" and "index < length xs"
  shows "length (slice (index - k) (index + 1) xs) = k + 1"
    and "i \<le> k \<Longrightarrow> slice (index - k) (index + 1) xs ! i = xs ! (index - k + i)"
  using assms by (simp_all add: slice_def)

lemma js_gt_zero_nonneg: "js_gt c (Fin 0) \<Longrightarrow> js_nonneg c"
  by (cases c) (simp_all add: js_gt_def)

lemma js_lt_zero_nonpos: "js_lt c (Fin 0) \<Longrightarrow> js_nonneg (js_neg c)"
  by (cases c) simp_all

lemma js_add_nonneg: "js_nonneg a \<Longrightarrow> js_nonneg b \<Longrightarrow> js_nonneg (js_add a b)"
  by (cases a; cases b) simp_all

lemma js_add_nonpos:
  "js_nonneg (js_neg a) \<Longrightarrow> js_nonneg (js_neg b) \<Longrightarrow> js_nonneg (js_neg (js_add a b))"
  by (cases a; cases b) simp_all

lemma foldl_add_nonneg:
  "js_nonneg a \<Longrightarrow> (\<And>c. c \<in> set cs \<Longrightarrow> js_nonneg c) \<Longrightarrow> js_nonneg (foldl js_add a cs)"
  by (induction cs arbitrary: a) (simp_all add: js_add_nonneg)

lemma foldl_add_nonpos:
  "js_nonneg (js_neg a) \<Longrightarrow> (\<And>c. c \<in> set cs \<Longrightarrow> js_nonneg (js_neg c))
     \<Longrightarrow> js_nonneg (js_neg (foldl js_add a cs))"
  by (induction cs arbitrary: a) (simp_all add: js_add_nonpos)

lemma gains_nonneg: "js_nonneg (js_sum (filter (\<lambda>c. js_gt c (Fin 0)) cs))"
  unfolding js_sum_def by (rule foldl_add_nonneg) (simp_all add: js_gt_zero_nonneg)

lemma js_abs_nonpos: "js_nonneg (js_neg a) \<Longrightarrow> js_nonneg (js_abs a)"
  by (cases a) simp_all

lemma losses_nonneg: "js_nonneg (js_abs (js_sum (filter (\<lambda>c. js_lt c (Fin 0)) cs)))"
  unfolding js_sum_def
  by (rule js_abs_nonpos, rule foldl_add_nonpos) (simp_all add: js_lt_zero_nonpos)

lemma rsi_value_fin:
  assumes "0 \<le> g" and "0 \<le> l"
  shows "\<exists>r. (if js_eq (js_div (Fin l) (Fin 14)) (Fin 0) then Fin 100
              else js_sub (Fin 100) (js_div (Fin 100)
                     (js_add (Fin 1) (js_div (js_div (Fin g) (Fin 14)) (js_div (Fin l) (Fin 14))))))
             = Fin r \<and> 0 \<le> r \<and> r \<le> 100"
proof -
  have g: "0 \<le> g / 14" and l: "0 \<le> l / 14"
    using assms by simp_all
  have e: "(if js_eq (js_div (Fin l) (Fin 14)) (Fin 0) then Fin 100
              else js_sub (Fin 100) (js_div (Fin 100)
                     (js_add (Fin 1) (js_div (js_div (Fin g) (Fin 14)) (js_div (Fin l) (Fin 14))))))
      = Fin (if l / 14 = 0 then 100 else 100 - 100 / (1 + (g / 14) / (l / 14)))"
  proof -
    have d: "js_div (Fin x) (Fin 14) = Fin (x / 14)" for x
      by simp
    show ?thesis
      unfolding d by (rule rsi_formula [OF g l])
  qed
  show ?thesis
  proof (cases "l / 14 = 0")
    case True
    then show ?thesis
      unfolding e by simp
  next
    case False
    with l have "0 < l / 14"
      by simp
    from rsi_value_bounds [OF g this] False show ?thesis
      unfolding e by simp
  qed
qed

lemma rsi_value_cases:
  assumes "js_nonneg G" and "js_nonneg L"
  shows "(if js_eq (js_div L (Fin 14)) (Fin 0) then Fin 100
          else js_sub (Fin 100) (js_div (Fin 100)
                 (js_add (Fin 1) (js_div (js_div G (Fin 14)) (js_div L (Fin 14))))))
           \<in> {NaN} \<union> {Fin r | r. 0 \<le> r \<and> r \<le> 100}"
proof (cases G)
  case g: (Fin g)
  show ?thesis
  proof (cases L)
    case (Fin l)
    from assms g Fin have "0 \<le> g" "0 \<le> l"
      by simp_all
    from rsi_value_fin [OF this] show ?thesis
      unfolding g Fin by blast
  next
    case PInf
    then show ?thesis
      unfolding g by (simp add: js_signed_inf_def js_sub_def)
  qed (use assms in simp_all)
next
  case g: PInf
  show ?thesis
  proof (cases L)
    case (Fin l)
    with assms have "0 \<le> l"
      by simp
    then show ?thesis
      unfolding g Fin by (simp add: js_signed_inf_def js_sub_def)
  next
    case PInf
    then show ?thesis
      unfolding g by (simp add: js_signed_inf_def js_sub_def)
  qed (use assms in simp_all)
qed (use assms in simp_all)

lemma js_sub_negative: "js_lt (js_sub a b) (Fin 0) \<Longrightarrow> js_lt a b"
  by (cases a; cases b) (simp_all add: js_sub_def)

lemma rsi_at_value:
  "14 \<le> index \<Longrightarrow>
   rsi_at stockData index =
     (if js_eq (js_div (js_abs (js_sum (filter (\<lambda>c. js_lt c (Fin 0))
                  (changes_of (slice (index - 13) (index + 1) stockData))))) (Fin 14)) (Fin 0)
      then Fin 100
      else js_sub (Fin 100) (js_div (Fin 100)
             (js_add (Fin 1)
                (js_div (js_div (js_sum (filter (\<lambda>c. js_gt c (Fin 0))
                           (changes_of (slice (index - 13) (index + 1) stockData)))) (Fin 14))
                        (js_div (js_abs (js_sum (filter (\<lambda>c. js_lt c (Fin 0))
                           (changes_of (slice (index - 13) (index + 1) stockData))))) (Fin 14))))))"
  unfolding rsi_at_def Let_def by (simp only: if_True)

text \<open>
  Claim C1, as stated: for every price sequence the RSI at an index of at least 14 is
  100 exactly when the window has no loss, and lies between 0 and 100 otherwise. With
  closes that are \<open>Infinity\<close>, which the parser emits, both parts fail: a window with a loss
  and an infinite gain has the RSI 100, and a window with an infinite gain and an infinite
  loss has the RSI \<open>NaN\<close>.
\<close>

theorem rsi_infinite_counterexample:
  "window_has_loss loss_then_infinite 14 \<and> rsi (indicators loss_then_infinite ! 14) = Fin 100
   \<and> window_has_loss infinite_spike 14 \<and> rsi (indicators infinite_spike ! 14) = NaN"
proof -
  have a: "indicators loss_then_infinite ! 14 = indicator_at loss_then_infinite 14"
    by (rule indicators_nth) (simp_all add: loss_then_infinite_def)
  have b: "indicators infinite_spike ! 14 = indicator_at infinite_spike 14"
    by (rule indicators_nth) (simp_all add: infinite_spike_def)
  have wa: "slice (14 - 13) (14 + 1) loss_then_infinite
      = [day 1, day 0] @ replicate 12 (day_of PInf)"
    by (simp add: slice_def loss_then_infinite_def numeral_eq_Suc)
  have wb: "slice (14 - 13) (14 + 1) infinite_spike
      = [day 1, day_of PInf] @ replicate 12 (day 1)"
    by (simp add: slice_def infinite_spike_def numeral_eq_Suc)
  have la: "window_has_loss loss_then_infinite 14"
    unfolding window_has_loss_def
    by (rule bexI [of _ 1]) (simp_all add: loss_then_infinite_def day_def)
  have lb: "window_has_loss infinite_spike 14"
    unfolding window_has_loss_def
    by (rule bexI [of _ 2]) (simp_all add: infinite_spike_def day_def day_of_def numeral_2_eq_2)
  have ra: "rsi_at loss_then_infinite 14 = Fin 100"
    unfolding rsi_at_def wa
    by (simp add: changes_of_def day_def day_of_def js_sub_def js_gt_def js_sum_def
        js_signed_inf_def Let_def upt_conv_Cons numeral_eq_Suc)
  have rb: "rsi_at infinite_spike 14 = NaN"
    unfolding rsi_at_def wb
    by (simp add: changes_of_def day_def day_of_def js_sub_def js_gt_def js_sum_def
        js_signed_inf_def Let_def upt_conv_Cons numeral_eq_Suc)
  show ?thesis
    unfolding a b using la lb ra rb by (simp add: indicator_at_def Let_def)
qed

text \<open>
  Claim C1, amended: for every price sequence of at least 50 points and every index
  from 14 on, the RSI is 100 when the 14-sample window that ends there has no loss (no
  close below the close of the day before); it is \<open>NaN\<close> or a number between 0 and 100 in
  every case; and it is a number between 0 and 100 when the closes of the window are
  finite and at most 10 to the power 300 in magnitude, where the sums of the program do
  not overflow.
\<close>

theorem rsi_range:
  assumes len: "50 \<le> length stockData"
    and idx: "14 \<le> index" "index < length stockData"
  shows "(\<not> window_has_loss stockData index \<longrightarrow> rsi (indicators stockData ! index) = Fin 100)
       \<and> rsi (indicators stockData ! index) \<in> {NaN} \<union> {Fin r | r. 0 \<le> r \<and> r \<le> 100}
       \<and> (window_bounded stockData index \<longrightarrow>
            rsi (indicators stockData ! index) \<in> {Fin r | r. 0 \<le> r \<and> r \<le> 100})"
proof -
  define w where "w = slice (index - 13) (index + 1) stockData"
  define G where "G = js_sum (filter (\<lambda>c. js_gt c (Fin 0)) (changes_of w))"
  define L where "L = js_abs (js_sum (filter (\<lambda>c. js_lt c (Fin 0)) (changes_of w)))"
  have k: "13 \<le> index"
    using idx by simp
  have wlen: "length w = 14"
    unfolding w_def using slice_window(1) [OF k idx(2)] by simp
  have wnth: "w ! i = stockData ! (index - 13 + i)" if "i < 14" for i
    unfolding w_def using slice_window(2) [OF k idx(2), of i] that by simp
  have "rsi (indicators stockData ! index) = rsi_at stockData index"
    unfolding indicators_nth [OF len idx(2)] by (simp add: indicator_at_def Let_def)
  then have val: "rsi (indicators stockData ! index) =
      (if js_eq (js_div L (Fin 14)) (Fin 0) then Fin 100
       else js_sub (Fin 100) (js_div (Fin 100)
              (js_add (Fin 1) (js_div (js_div G (Fin 14)) (js_div L (Fin 14))))))"
    unfolding rsi_at_value [OF idx(1)] G_def L_def w_def .
  have G0: "js_nonneg G"
    unfolding G_def by (rule gains_nonneg)
  have L0: "js_nonneg L"
    unfolding L_def by (rule losses_nonneg)
  have none: "rsi (indicators stockData ! index) = Fin 100"
    if nl: "\<not> window_has_loss stockData index"
  proof -
    have "\<not> js_lt c (Fin 0)" if "c \<in> set (changes_of w)" for c
    proof
      assume neg: "js_lt c (Fin 0)"
      from that have "c \<in> (\<lambda>i. if i = 0 then Fin 0
                               else js_sub (close (w ! i)) (close (w ! (i - 1)))) ` {0..<14}"
        unfolding changes_of_def wlen set_map set_upt .
      then obtain i where i: "i < 14"
        and c: "c = (if i = 0 then Fin 0 else js_sub (close (w ! i)) (close (w ! (i - 1))))"
        by (elim imageE) simp
      from neg c have i0: "i \<noteq> 0"
        by (auto split: if_splits)
      with neg c have "js_lt (close (w ! i)) (close (w ! (i - 1)))"
        by (simp add: js_sub_negative)
      then have "js_lt (close (stockData ! (index - 13 + (i - 1) + 1)))
                       (close (stockData ! (index - 13 + (i - 1))))"
        using wnth [of i] wnth [of "i - 1"] i i0 by simp
      moreover have "index - 13 + (i - 1) \<in> {index - 13..<index}"
        using i i0 k by auto
      ultimately have "window_has_loss stockData index"
        unfolding window_has_loss_def by blast
      with nl show False
        by simp
    qed
    then have "filter (\<lambda>c. js_lt c (Fin 0)) (changes_of w) = []"
      by (simp add: filter_empty_conv)
    then have "L = Fin 0"
      unfolding L_def by (simp add: js_sum_def)
    then show ?thesis
      unfolding val by simp
  qed
  have range: "rsi (indicators stockData ! index) \<in> {NaN} \<union> {Fin r | r. 0 \<le> r \<and> r \<le> 100}"
    unfolding val by (rule rsi_value_cases [OF G0 L0])
  have bounded: "rsi (indicators stockData ! index) \<in> {Fin r | r. 0 \<le> r \<and> r \<le> 100}"
    if wb: "window_bounded stockData index"
  proof -
    define a where "a = (\<lambda>i. num_val (close (w ! i)))"
    define cs where "cs = map (\<lambda>i. if i = 0 then 0 else a i - a (i - 1)) [0..<14]"
    have cl: "close (w ! i) = Fin (a i)" if "i < 14" for i
    proof -
      have "index - 13 + i \<in> {index - 13..index}"
        using that k by auto
      with wb have "case close (stockData ! (index - 13 + i)) of
                      Fin c \<Rightarrow> \<bar>c\<bar> \<le> 10 ^ 300 | _ \<Rightarrow> False"
        unfolding window_bounded_def by blast
      then have "is_finite (close (stockData ! (index - 13 + i)))"
        by (cases "close (stockData ! (index - 13 + i))") simp_all
      then show ?thesis
        unfolding a_def wnth [OF that] by (rule is_finite_num_val)
    qed
    have ch: "changes_of w = map Fin cs"
      unfolding changes_of_def cs_def wlen
      by (rule nth_equalityI) (simp_all add: cl js_sub_def)
    have g: "G = Fin (sum_list (filter (\<lambda>c. 0 < c) cs))"
      unfolding G_def ch filter_gt_Fin js_sum_map_Fin ..
    have l: "L = Fin \<bar>sum_list (filter (\<lambda>c. c < 0) cs)\<bar>"
      unfolding L_def ch filter_lt_Fin js_sum_map_Fin by simp
    have "0 \<le> sum_list (filter (\<lambda>c. 0 < c) cs)"
      by (rule sum_pos_nonneg)
    moreover have "0 \<le> \<bar>sum_list (filter (\<lambda>c. c < 0) cs)\<bar>"
      by simp
    ultimately show ?thesis
      unfolding val g l using rsi_value_fin by blast
  qed
  from none range bounded show ?thesis
    by blast
qed

theorem rsi_range_witness:
  "\<not> window_has_loss rising_days 20 \<and> rsi (indicators rising_days ! 20) = Fin 100
   \<and> window_bounded zigzag_days 20
   \<and> rsi (indicators zigzag_days ! 20) \<in> {Fin r | r. 0 \<le> r \<and> r \<le> 100}"
proof -
  have r: "50 \<le> length rising_days" "14 \<le> (20::nat)" "20 < length rising_days"
    by (simp_all add: rising_days_def)
  have z: "50 \<le> length zigzag_days" "20 < length zigzag_days"
    by (simp_all add: zigzag_days_def)
  have zb: "window_bounded zigzag_days 20"
    by (auto simp add: window_bounded_def zigzag_days_def day_def)
  have rl: "\<not> window_has_loss rising_days 20"
    by (auto simp add: window_has_loss_def rising_days_def day_def)
  show ?thesis
    using rsi_range [OF r] rsi_range [OF z(1) r(2) z(2)] rl zb by blast
qed

section \<open>Recommendation: results\<close>

lemma decide_BUY: "fst (decide pcp ts lc up avg) = BUY \<Longrightarrow> js_gt pcp (Fin 0.3)"
  unfolding decide_def
  by (cases pcp) (auto simp add: js_gt_def split: if_splits)

lemma decide_SELL: "fst (decide pcp ts lc up avg) = SELL \<Longrightarrow> js_lt pcp (Fin (- 0.3))"
  unfolding decide_def
  by (cases pcp) (auto simp add: js_gt_def split: if_splits)

lemma buy_targets:
  assumes "js_gt pcp (Fin 0.3)" and "0 < c"
  shows "js_lt (js_mul (Fin c) (stopMultiplier_of pcp)) (Fin c)"
    and "js_lt (Fin c) (js_mul (Fin c) (targetMultiplier_of pcp))"
  using assms
  by (cases pcp; simp add: js_gt_def stopMultiplier_of_def targetMultiplier_of_def js_max_def
      js_sub_def js_signed_inf_def; fail)+

lemma sell_targets:
  assumes "js_lt pcp (Fin (- 0.3))" and "0 < c"
  shows "js_lt (js_mul (Fin c) (js_sub (Fin 2) (targetMultiplier_of pcp))) (Fin c)"
    and "js_lt (Fin c) (js_mul (Fin c) (js_sub (Fin 2) (stopMultiplier_of pcp)))"
  using assms
  by (cases pcp; simp add: js_gt_def stopMultiplier_of_def targetMultiplier_of_def js_max_def
      js_sub_def js_signed_inf_def; fail)+

lemma recommendation_fields:
  assumes "stockData \<noteq> []" and "predictions \<noteq> []"
  defines "r \<equiv> the (recommendation stockData predictions)"
  shows "recommendation stockData predictions = Some r"
    and "currentPrice r = close (last stockData)"
    and "\<exists>ts lc up avg. action r = fst (decide (priceChangePercent r) ts lc up avg)"
    and "targetPrice r =
               (case action r of
                  BUY \<Rightarrow> js_mul (currentPrice r) (targetMultiplier_of (priceChangePercent r))
                | SELL \<Rightarrow> js_mul (currentPrice r)
                            (js_sub (Fin 2) (targetMultiplier_of (priceChangePercent r)))
                | HOLD \<Rightarrow> currentPrice r)"
    and "stopLoss r =
               (case action r of
                  BUY \<Rightarrow> js_mul (currentPrice r) (stopMultiplier_of (priceChangePercent r))
                | SELL \<Rightarrow> js_mul (currentPrice r)
                            (js_sub (Fin 2) (stopMultiplier_of (priceChangePercent r)))
                | HOLD \<Rightarrow> currentPrice r)"
proof -
  show "recommendation stockData predictions = Some r"
    unfolding r_def using assms(1,2) by (simp add: recommendation_def Let_def)
  show "currentPrice r = close (last stockData)"
    unfolding r_def using assms(1,2) by (simp add: recommendation_def Let_def)
  show "\<exists>ts lc up avg. action r = fst (decide (priceChangePercent r) ts lc up avg)"
    unfolding r_def using assms(1,2)
    by (simp add: recommendation_def Let_def) blast
  show "targetPrice r =
               (case action r of
                  BUY \<Rightarrow> js_mul (currentPrice r) (targetMultiplier_of (priceChangePercent r))
                | SELL \<Rightarrow> js_mul (currentPrice r)
                            (js_sub (Fin 2) (targetMultiplier_of (priceChangePercent r)))
                | HOLD \<Rightarrow> currentPrice r)"
    unfolding r_def using assms(1,2)
    by (simp add: recommendation_def Let_def cong: Action.case_cong)
  show "stopLoss r =
               (case action r of
                  BUY \<Rightarrow> js_mul (currentPrice r) (stopMultiplier_of (priceChangePercent r))
                | SELL \<Rightarrow> js_mul (currentPrice r)
                            (js_sub (Fin 2) (stopMultiplier_of (priceChangePercent r)))
                | HOLD \<Rightarrow> currentPrice r)"
    unfolding r_def using assms(1,2)
    by (simp add: recommendation_def Let_def cong: Action.case_cong)
qed

lemma targets_ordered_weakly:
  assumes "targets_ordered r" and "currentPrice r = Fin c"
  shows "targets_weakly_ordered r"
  using assms unfolding targets_ordered_def targets_weakly_ordered_def
  by (cases "action r") (simp_all add: js_le_def)

text \<open>
  Claim C9, as stated, for every non-empty input: with a last close of 0 and a positive
  prediction the predicted change is \<open>10 / 0\<close>, the action is BUY, the stop-loss is 0, not
  below the current price 0, and the target price is \<open>0 * Infinity\<close>, no number.
\<close>

theorem zero_price_counterexample:
  "map_option action (recommendation zero_price_days rise_predicted) = Some BUY
   \<and> map_option currentPrice (recommendation zero_price_days rise_predicted) = Some (Fin 0)
   \<and> map_option stopLoss (recommendation zero_price_days rise_predicted) = Some (Fin 0)
   \<and> map_option targetPrice (recommendation zero_price_days rise_predicted) = Some NaN"
  by (simp add: recommendation_def zero_price_days_def rise_predicted_def day_def prediction_def
      Let_def slice_last_def js_sub_def js_signed_inf_def decide_def js_gt_def js_ge_def js_le_def
      targetMultiplier_of_def stopMultiplier_of_def js_max_def)

text \<open>
  Claim C9, amended: for non-empty stock data whose last close is a finite positive number
  and any non-empty prediction list, the price targets are ordered by the action, weakly:
  for BUY the stop-loss is at most the current price and the target at least it, for SELL
  the other way round, for HOLD all three are equal. When the last close is at least 2 to
  the power -1022, the least positive normal double, the order is strict. (Below that
  bound the products of the program can round back to the current price.)
\<close>

theorem targets_ordered_positive_price:
  assumes ne: "stockData \<noteq> []" "predictions \<noteq> []"
    and price: "close (last stockData) = Fin c" "0 < c"
  shows "\<exists>r. recommendation stockData predictions = Some r
           \<and> targets_weakly_ordered r
           \<and> (1 / 2 ^ 1022 \<le> c \<longrightarrow> targets_ordered r)"
proof -
  define r where "r = the (recommendation stockData predictions)"
  note f = recommendation_fields [OF ne, folded r_def]
  from f(3) obtain ts lc up avg where
    act: "action r = fst (decide (priceChangePercent r) ts lc up avg)"
    by blast
  have c: "currentPrice r = Fin c"
    using f(2) price(1) by simp
  have strict: "targets_ordered r"
  proof (cases "action r")
    case BUY
    then have "js_gt (priceChangePercent r) (Fin 0.3)"
      using act decide_BUY by metis
    from buy_targets [OF this price(2)] show ?thesis
      unfolding targets_ordered_def f(4) f(5) BUY c by simp
  next
    case SELL
    then have "js_lt (priceChangePercent r) (Fin (- 0.3))"
      using act decide_SELL by metis
    from sell_targets [OF this price(2)] show ?thesis
      unfolding targets_ordered_def f(4) f(5) SELL c by simp
  next
    case HOLD
    then show ?thesis
      unfolding targets_ordered_def f(4) f(5) by simp
  qed
  then have "targets_weakly_ordered r"
    using c by (rule targets_ordered_weakly)
  with f(1) strict show ?thesis
    by blast
qed

theorem targets_ordered_positive_price_witness:
  "map_option action (recommendation hundred_days gain_predicted) = Some BUY
   \<and> map_option targets_weakly_ordered (recommendation hundred_days gain_predicted) = Some True
   \<and> map_option targets_ordered (recommendation hundred_days gain_predicted) = Some True"
proof -
  have h: "hundred_days \<noteq> []" "gain_predicted \<noteq> []" "close (last hundred_days) = Fin 100"
    "0 < (100::real)"
    by (simp_all add: hundred_days_def gain_predicted_def day_def)
  have n: "1 / 2 ^ 1022 \<le> (100::real)"
    by simp
  have "map_option action (recommendation hundred_days gain_predicted) = Some BUY"
    by (simp add: recommendation_def hundred_days_def gain_predicted_def day_def prediction_def
        Let_def slice_last_def js_sub_def decide_def js_gt_def js_ge_def js_le_def)
  moreover from targets_ordered_positive_price [OF h] n
  have "map_option targets_weakly_ordered (recommendation hundred_days gain_predicted) = Some True"
    and "map_option targets_ordered (recommendation hundred_days gain_predicted) = Some True"
    by auto
  ultimately show ?thesis
    by simp
qed

section \<open>Reading a CSV file: results\<close>

lemmas parse_defs = parseFloat_def parseFloat_string_def parse_unsigned_def trim_start_def
  is_space_def is_digit_def digits_val_def digit_val_def parse_exponent_def pow10_def Let_def

lemma split_on_nonempty: "split_on sep s \<noteq> []"
  by (induction s) (simp_all split: list.splits)

lemma parseCSVData_rows:
  "parseCSVData rnd csvText =
     filter (\<lambda>d. \<not> js_isNaN (close d)) (parse_lines rnd 0 (csv_headers csvText) (csv_rows csvText))"
  using split_on_nonempty [of "CHR 0x0A" "trim csvText"]
  by (cases "split_on CHR 0x0A (trim csvText)")
    (simp_all add: parseCSVData_def csv_headers_def csv_rows_def Let_def)

lemma parse_lines_closes:
  "map close (parse_lines rnd k headers rows) =
     (case (date_column headers, close_column headers) of
        (Some di, Some ci) \<Rightarrow> map (\<lambda>line. parseFloat (js_nth (line_fields line) ci)) rows
      | _ \<Rightarrow> [])"
  by (induction rows arbitrary: k)
    (simp_all add: Let_def date_column_def close_column_def line_fields_def row_of_def
      split: option.splits)

lemma defaulted_Some:
  "defaulted (Some i) values dflt = js_or_zero (parseFloat (js_nth values i))"
  by (cases "parseFloat (js_nth values i)") (simp_all add: js_or_zero_def defaulted_def Let_def)

lemma defaulted_None: "defaulted None values dflt = dflt"
  by (simp add: defaulted_def)

lemma row_of_defaults:
  assumes "close_column headers = Some ci"
  shows "row_defaults headers line r
           (row_of di (column ''open'' headers) (column ''high'' headers) (column ''low'' headers)
              ci (column ''volume'' headers) (line_fields line) r)"
  unfolding row_defaults_def row_of_def assms
  by (simp add: defaulted_Some defaulted_None split: option.split)

lemma parse_lines_rows:
  "d \<in> set (parse_lines rnd k headers rows) \<Longrightarrow>
     \<exists>line\<in>set rows. \<exists>n. row_defaults headers line (rnd n) d"
proof (induction rows arbitrary: k)
  case Nil
  then show ?case by simp
next
  case (Cons line rows)
  show ?case
  proof (cases "date_column headers")
    case None
    with Cons show ?thesis
      by (fastforce simp add: Let_def date_column_def)
  next
    case (Some di)
    show ?thesis
    proof (cases "close_column headers")
      case None
      with Cons Some show ?thesis
        by (fastforce simp add: Let_def date_column_def close_column_def)
    next
      case ci: (Some ci)
      from Cons.prems Some ci
      consider "d = row_of di (column ''open'' headers) (column ''high'' headers)
                     (column ''low'' headers) ci (column ''volume'' headers) (line_fields line) (rnd k)"
        | k' where "d \<in> set (parse_lines rnd k' headers rows)"
        by (auto simp add: Let_def date_column_def close_column_def column_def line_fields_def)
      then show ?thesis
      proof cases
        case 1
        then have "row_defaults headers line (rnd k) d"
          using row_of_defaults [OF ci] by simp
        then show ?thesis
          by auto
      next
        case 2
        from Cons.IH [OF this] show ?thesis
          by auto
      qed
    qed
  qed
qed

lemmas csv_eval = parseCSVData_def lines_text_def trim_def toLowerCase_def lower_char_def
  upper_letters_def lower_letters_def
  row_of_def js_nth_def js_or_zero_def parse_defs

lemma example_csv_lines:
  "split_on CHR 0x0A (trim example_csv) =
     [''Date,Open,High,Low,Close,Volume'',
      ''2024-01-01,150,155,149,152.5,1000000'',
      ''2024-01-02,152.5,156,151,154.25,1200000'']"
  by (simp add: example_csv_def lines_text_def trim_def is_space_def)

lemma example_csv_headers:
  "map trim (split_on CHR '','' (toLowerCase ''Date,Open,High,Low,Close,Volume''))
     = [''date'', ''open'', ''high'', ''low'', ''close'', ''volume'']"
  by (simp add: toLowerCase_def lower_char_def upper_letters_def lower_letters_def trim_def
      is_space_def)

lemma example_csv_rows:
  "parse_lines rnd 0 [''date'', ''open'', ''high'', ''low'', ''close'', ''volume'']
     [''2024-01-01,150,155,149,152.5,1000000'', ''2024-01-02,152.5,156,151,154.25,1200000'']
   = [\<lparr>date = Some ''2024-01-01'', open' = Fin 150, high = Fin 155, low = Fin 149,
        close = Fin 152.5, volume = Fin 1000000\<rparr>,
      \<lparr>date = Some ''2024-01-02'', open' = Fin 152.5, high = Fin 156, low = Fin 151,
        close = Fin 154.25, volume = Fin 1200000\<rparr>]"
  by (simp add: row_of_def trim_def js_nth_def js_or_zero_def parse_defs)

lemma example_csv_parsed:
  "parseCSVData rnd example_csv =
     [\<lparr>date = Some ''2024-01-01'', open' = Fin 150, high = Fin 155, low = Fin 149,
        close = Fin 152.5, volume = Fin 1000000\<rparr>,
      \<lparr>date = Some ''2024-01-02'', open' = Fin 152.5, high = Fin 156, low = Fin 151,
        close = Fin 154.25, volume = Fin 1200000\<rparr>]"
  unfolding parseCSVData_def example_csv_lines list.case Let_def example_csv_headers
    example_csv_rows
  by simp

lemma mixed_csv_parsed:
  "parseCSVData (\<lambda>k. 1 / 2) mixed_csv =
     [\<lparr>date = Some ''a'', open' = Fin 1, high = Fin 1, low = Fin 1, close = Fin 1,
        volume = Fin 500000\<rparr>,
      \<lparr>date = Some ''c'', open' = Fin 25, high = Fin 25, low = Fin 25, close = Fin 25,
        volume = Fin 500000\<rparr>]"
  by (simp add: mixed_csv_def csv_eval)

text \<open>
  Claim C6, as stated: every record that the parser emits has a finite close. The filter
  of the parser removes the closes that are \<open>NaN\<close> only, and \<open>parseFloat\<close> reads the text
  \<open>Infinity\<close> as a number: a row with that close is emitted.
\<close>

theorem csv_infinity_counterexample:
  "map close (parseCSVData (\<lambda>k. 0) infinity_csv) = [PInf] \<and> \<not> is_finite PInf"
  by (simp add: infinity_csv_def csv_eval)

lemma parse_lines_close_fields:
  "map close (parse_lines rnd k headers rows) =
     (if date_column headers = None \<or> close_column headers = None then []
      else map (close_field headers) rows)"
  unfolding parse_lines_closes close_field_def by (auto split: option.splits)

lemma mixed_csv_close_fields:
  "map (close_field (csv_headers mixed_csv)) (csv_rows mixed_csv) = [Fin 1, NaN, Fin 25]"
  by (simp add: close_field_def csv_headers_def csv_rows_def close_column_def
      line_fields_def mixed_csv_def csv_eval)

text \<open>
  Claim C6, amended: no record that the parser emits has the close \<open>NaN\<close> (it may be
  infinite), and its close is the number parsed from the close field of one of the rows;
  there are no more records than rows whose close field parses to a number, so the rows
  whose close field is no number are left out; and the two rows of the example under the
  header \<open>Date,Open,High,Low,Close,Volume\<close> give two records, with the closes 152.5 and
  154.25, in that order.
\<close>

theorem parsed_closes:
  "(\<forall>d\<in>set (parseCSVData rnd csvText).
      \<not> js_isNaN (close d)
      \<and> (\<exists>line\<in>set (csv_rows csvText). close d = close_field (csv_headers csvText) line))
   \<and> length (parseCSVData rnd csvText)
       \<le> length (filter (\<lambda>line. \<not> js_isNaN (close_field (csv_headers csvText) line))
                   (csv_rows csvText))
   \<and> parseCSVData rnd example_csv =
       [\<lparr>date = Some ''2024-01-01'', open' = Fin 150, high = Fin 155, low = Fin 149,
          close = Fin 152.5, volume = Fin 1000000\<rparr>,
        \<lparr>date = Some ''2024-01-02'', open' = Fin 152.5, high = Fin 156, low = Fin 151,
          close = Fin 154.25, volume = Fin 1200000\<rparr>]"
proof (intro conjI ballI)
  fix d
  assume d: "d \<in> set (parseCSVData rnd csvText)"
  then show "\<not> js_isNaN (close d)"
    unfolding parseCSVData_rows by simp
  from d have "close d \<in> set (map close (parse_lines rnd 0 (csv_headers csvText) (csv_rows csvText)))"
    unfolding parseCSVData_rows by simp
  then show "\<exists>line\<in>set (csv_rows csvText). close d = close_field (csv_headers csvText) line"
    unfolding parse_lines_close_fields by (auto split: if_splits)
next
  have "length (parseCSVData rnd csvText)
      = length (filter (\<lambda>c. \<not> js_isNaN c)
          (map close (parse_lines rnd 0 (csv_headers csvText) (csv_rows csvText))))"
    unfolding parseCSVData_rows by (simp add: filter_map comp_def)
  also have "\<dots> \<le> length (filter (\<lambda>line. \<not> js_isNaN (close_field (csv_headers csvText) line))
                   (csv_rows csvText))"
    unfolding parse_lines_close_fields by (simp add: filter_map comp_def)
  finally show "length (parseCSVData rnd csvText)
       \<le> length (filter (\<lambda>line. \<not> js_isNaN (close_field (csv_headers csvText) line))
                   (csv_rows csvText))" .
next
  show "parseCSVData rnd example_csv =
       [\<lparr>date = Some ''2024-01-01'', open' = Fin 150, high = Fin 155, low = Fin 149,
          close = Fin 152.5, volume = Fin 1000000\<rparr>,
        \<lparr>date = Some ''2024-01-02'', open' = Fin 152.5, high = Fin 156, low = Fin 151,
          close = Fin 154.25, volume = Fin 1200000\<rparr>]"
    by (rule example_csv_parsed)
qed

theorem parsed_closes_witness:
  "map (close_field (csv_headers mixed_csv)) (csv_rows mixed_csv) = [Fin 1, NaN, Fin 25]
   \<and> length (parseCSVData (\<lambda>k. 1 / 2) mixed_csv) \<le> 2
   \<and> map close (parseCSVData (\<lambda>k. 1 / 2) mixed_csv) = [Fin 1, Fin 25]
   \<and> (\<exists>line\<in>set (csv_rows mixed_csv). Fin 25 = close_field (csv_headers mixed_csv) line)"
proof -
  note t = parsed_closes [of "\<lambda>k. 1 / 2" mixed_csv]
  have "length (filter (\<lambda>line. \<not> js_isNaN (close_field (csv_headers mixed_csv) line))
                   (csv_rows mixed_csv))
      = length (filter (\<lambda>c. \<not> js_isNaN c)
                   (map (close_field (csv_headers mixed_csv)) (csv_rows mixed_csv)))"
    by (simp add: filter_map comp_def)
  also have "\<dots> = 2"
    unfolding mixed_csv_close_fields by simp
  finally have l: "length (parseCSVData (\<lambda>k. 1 / 2) mixed_csv) \<le> 2"
    using t by simp
  have "\<lparr>date = Some ''c'', open' = Fin 25, high = Fin 25, low = Fin 25, close = Fin 25,
          volume = Fin 500000\<rparr> \<in> set (parseCSVData (\<lambda>k. 1 / 2) mixed_csv)"
    unfolding mixed_csv_parsed by simp
  with t have "\<exists>line\<in>set (csv_rows mixed_csv). Fin 25 = close_field (csv_headers mixed_csv) line"
    by fastforce
  with l show ?thesis
    using mixed_csv_close_fields mixed_csv_parsed by simp
qed

text \<open>
  Claim C7, as stated: an optional field whose value cannot be parsed defaults to the
  close of the row (to a random integer for the volume). In the code a field that cannot
  be parsed becomes 0: with the open \<open>abc\<close> and the close 10 the record has the open 0.
\<close>

theorem unparsable_open_counterexample:
  "map open' (parseCSVData (\<lambda>k. 0) unparsable_open_csv) = [Fin 0]
   \<and> map close (parseCSVData (\<lambda>k. 0) unparsable_open_csv) = [Fin 10]"
  by (simp add: unparsable_open_csv_def csv_eval)

text \<open>
  Claim C7, amended: every record that the parser emits comes from a row of the text, and
  each of its fields open, high, low and volume is set on its own: when the column is
  absent, open, high and low are the close of the row and the volume is the integer part
  of a random draw times 1000000; when the column is there and the field of the row is no
  number, the field is 0; otherwise it is the number read.
\<close>

theorem parsed_defaults:
  "\<forall>d\<in>set (parseCSVData rnd csvText).
     \<exists>line\<in>set (csv_rows csvText). \<exists>n. row_defaults (csv_headers csvText) line (rnd n) d"
  unfolding parseCSVData_rows using parse_lines_rows by fastforce

theorem parsed_defaults_witness:
  "parseCSVData (\<lambda>k. 1 / 2) mixed_csv \<noteq> []
   \<and> (\<exists>line\<in>set (csv_rows mixed_csv). \<exists>n.
         row_defaults (csv_headers mixed_csv) line ((\<lambda>k. 1 / 2) n)
           \<lparr>date = Some ''a'', open' = Fin 1, high = Fin 1, low = Fin 1, close = Fin 1,
             volume = Fin 500000\<rparr>)"
proof -
  have "\<lparr>date = Some ''a'', open' = Fin 1, high = Fin 1, low = Fin 1, close = Fin 1,
          volume = Fin 500000\<rparr> \<in> set (parseCSVData (\<lambda>k. 1 / 2) mixed_csv)"
    unfolding mixed_csv_parsed by simp
  with parsed_defaults [of "\<lambda>k. 1 / 2" mixed_csv] show ?thesis
    unfolding mixed_csv_parsed by blast
qed

end
